theory Spec2Isabelle
  imports Main
begin

section \<open>JavaScript values\<close>

text \<open>
  The values that flow through the router, the controller and the datasources are plain
  JavaScript data. Numbers are modelled as integers (no claim depends on fractions or
  \<open>NaN\<close>); \<open>JUndefined\<close> is the value of a property that is not there. Objects are
  association lists read with \<open>map_of\<close>: they hold the properties that an object has of
  its own. What a read finds on a prototype matters where the code reads a property by
  a name that is not fixed; it is dealt with there.
\<close>

datatype json =
    JUndefined
  | JNull
  | JBool bool
  | JNum int
  | JStr string
  | JArr "json list"
  | JObj "(string \<times> json) list"

text \<open>What \<open>if (v)\<close>, \<open>v || w\<close> and \<open>v && w\<close> test.\<close>

fun truthy :: "json \<Rightarrow> bool" where
  "truthy JUndefined = False"
| "truthy JNull = False"
| "truthy (JBool b) = b"
| "truthy (JNum n) = (n \<noteq> 0)"
| "truthy (JStr s) = (s \<noteq> [])"
| "truthy (JArr xs) = True"
| "truthy (JObj kvs) = True"

definition js_or :: "json \<Rightarrow> json \<Rightarrow> json" where
  "js_or a b = (if truthy a then a else b)"

datatype exn = TypeError | SyntaxError | Thrown string

section \<open>The router (api/index.js)\<close>

subsection \<open>Strings\<close>

text \<open>\<open>s.split(c)\<close> for a one-character separator.\<close>

fun split_on :: "char \<Rightarrow> string \<Rightarrow> string list" where
  "split_on c [] = [[]]"
| "split_on c (x # xs) =
     (if x = c then [] # split_on c xs
      else (case split_on c xs of
              [] \<Rightarrow> [[x]]
            | y # ys \<Rightarrow> (x # y) # ys))"

text \<open>\<open>_.compact\<close> on a list of strings: the empty string is the only falsy one.\<close>

definition compact :: "string list \<Rightarrow> string list" where
  "compact xs = filter (\<lambda>s. s \<noteq> []) xs"

text \<open>\<open>s.indexOf(sub)\<close>: the first position where \<open>sub\<close> starts, or \<open>-1\<close>.\<close>

fun indexOf_from :: "nat \<Rightarrow> string \<Rightarrow> string \<Rightarrow> int" where
  "indexOf_from i sub [] = (if sub = [] then int i else - 1)"
| "indexOf_from i sub (c # cs) =
     (if take (length sub) (c # cs) = sub then int i
      else indexOf_from (Suc i) sub cs)"

definition indexOf :: "string \<Rightarrow> string \<Rightarrow> int" where
  "indexOf s sub = indexOf_from 0 sub s"

subsection \<open>Path patterns\<close>

text \<open>
  \<open>pathToRegexp.parse\<close> and \<open>pathToRegexp\<close> belong to the third-party package
  path-to-regexp. \<open>Api.use\<close> reads two things from it: the token list of the pattern
  (a token is a string of literal text or a key) and the \<open>keys\<close> of the compiled
  expression, which path-to-regexp fills with the non-string tokens in order. The parser
  is a parameter of the model; only the \<open>optional\<close> flag and the \<open>name\<close> of a key are read.
\<close>

record key =
  name :: string
  optional :: bool

datatype token = TStr string | TKey key

fun keys_of :: "token list \<Rightarrow> key list" where
  "keys_of [] = []"
| "keys_of (TStr s # ts) = keys_of ts"
| "keys_of (TKey k # ts) = k # keys_of ts"

text \<open>
  A pattern without parameters, groups or modifiers parses to one token: itself.
\<close>

definition parse_static :: "string \<Rightarrow> token list" where
  "parse_static p = (if p = [] then [] else [TStr p])"

subsection \<open>Handlers and routes\<close>

text \<open>
  A handler is a function object: \<open>use\<close> reads its declared arity (\<open>path.length\<close>) and
  \<open>unuse\<close> compares it by identity. \<open>DefaultError\<close> is the function that
  \<open>defaultError()\<close> returns; it declares three parameters \<open>(err, req, res)\<close>.
\<close>

datatype fn = DefaultError | Fn (fn_id: nat) (fn_arity: nat)

fun fn_length :: "fn \<Rightarrow> nat" where
  "fn_length DefaultError = 3"
| "fn_length (Fn i n) = n"

text \<open>
  A route is the object literal pushed by \<open>use\<close>. \<open>rid\<close> is the identity of that object:
  \<open>_.without\<close> compares with \<open>===\<close>, which on objects is identity. \<open>regex\<close> keeps the keys
  of the compiled expression.
\<close>

record route =
  rid :: nat
  path :: string
  order :: int
  handler :: fn
  regex :: "key list"

record api =
  paths :: "route list"
  all :: "fn list"
  errors :: "fn list"
  next_rid :: nat

definition Api :: api where
  "Api = \<lparr> paths = [], all = [], errors = [DefaultError], next_rid = 0 \<rparr>"

datatype use_arg = Function fn | Path string

definition staticRouteLength :: "token list \<Rightarrow> nat" where
  "staticRouteLength tokens =
     (case tokens of
        TStr s # _ \<Rightarrow> length (compact (split_on CHR ''/'' s))
      | _ \<Rightarrow> 0)"

definition requiredParamLength :: "key list \<Rightarrow> nat" where
  "requiredParamLength ks = length (filter (\<lambda>k. \<not> optional k) ks)"

definition optionalParamLength :: "key list \<Rightarrow> nat" where
  "optionalParamLength ks = length (filter (\<lambda>k. optional k) ks)"

definition route_order :: "(string \<Rightarrow> token list) \<Rightarrow> string \<Rightarrow> int" where
  "route_order parse p =
     (let tokens = parse p;
          ks = keys_of tokens;
          ord = int (staticRouteLength tokens) * 5 + int (requiredParamLength ks) * 2
                  + int (optionalParamLength ks)
      in if indexOf p ''/config'' > 0 then - 10 else ord)"

text \<open>
  \<open>this.paths.sort(function (a, b) { return b.order - a.order })\<close>: descending by
  \<open>order\<close>. The sort is taken to be stable, as ECMAScript requires since ES2019;
  \<open>sort_key\<close> is a stable insertion sort.
\<close>

definition sort_paths :: "route list \<Rightarrow> route list" where
  "sort_paths rs = sort_key (\<lambda>r. - order r) rs"

definition use :: "(string \<Rightarrow> token list) \<Rightarrow> use_arg \<Rightarrow> fn \<Rightarrow> api \<Rightarrow> api" where
  "use parse arg h a =
     (case arg of
        Function f \<Rightarrow>
          if fn_length f = 4 then a\<lparr> errors := errors a @ [f] \<rparr>
          else a\<lparr> all := all a @ [f] \<rparr>
      | Path p \<Rightarrow>
          a\<lparr> paths := sort_paths (paths a @
                 [\<lparr> rid = next_rid a, path = p, order = route_order parse p,
                    handler = h, regex = keys_of (parse p) \<rparr>]),
             next_rid := Suc (next_rid a) \<rparr>)"

text \<open>\<open>xs.indexOf(f)\<close> followed by \<open>!!~indx && xs.splice(indx, 1)\<close>: drop the first
  occurrence, if there is one.\<close>

fun remove_first :: "fn \<Rightarrow> fn list \<Rightarrow> fn list" where
  "remove_first f [] = []"
| "remove_first f (x # xs) = (if x = f then xs else x # remove_first f xs)"

text \<open>\<open>_.findWhere(list, {path: p})\<close>: the first route whose path is \<open>p\<close>.\<close>

definition findWhere_path :: "route list \<Rightarrow> string \<Rightarrow> route option" where
  "findWhere_path rs p = find (\<lambda>r. path r = p) rs"

text \<open>\<open>_.without(list, v)\<close>: every element that is not (identical to) \<open>v\<close>; with
  \<open>v\<close> undefined nothing is removed.\<close>

definition without :: "route list \<Rightarrow> route option \<Rightarrow> route list" where
  "without rs v =
     (case v of
        None \<Rightarrow> rs
      | Some r \<Rightarrow> filter (\<lambda>x. rid x \<noteq> rid r) rs)"

definition unuse :: "use_arg \<Rightarrow> api \<Rightarrow> api" where
  "unuse arg a =
     (case arg of
        Function f \<Rightarrow>
          if fn_length f = 4 then a\<lparr> errors := remove_first f (errors a) \<rparr>
          else a\<lparr> all := remove_first f (all a) \<rparr>
      | Path p \<Rightarrow> a\<lparr> paths := without (paths a) (findWhere_path (paths a) p) \<rparr>)"


text \<open>The states an \<open>Api\<close> can be in: built by the constructor and changed by \<open>use\<close> and
  \<open>unuse\<close> only.\<close>

inductive reachable :: "(string \<Rightarrow> token list) \<Rightarrow> api \<Rightarrow> bool"
  for parse :: "string \<Rightarrow> token list" where
  init: "reachable parse Api"
| use: "reachable parse a \<Longrightarrow> reachable parse (use parse arg h a)"
| unuse: "reachable parse a \<Longrightarrow> reachable parse (unuse arg a)"

definition api_inv :: "api \<Rightarrow> bool" where
  "api_inv a \<longleftrightarrow>
     sorted (map (\<lambda>r. - order r) (paths a)) \<and>
     (\<forall>r \<in> set (paths a). rid r < next_rid a) \<and>
     (\<exists>rest. errors a = DefaultError # rest)"

subsection \<open>The error chain\<close>

text \<open>
  An error passed to a continuation: an \<open>Error\<close> object with the optional properties the
  pipeline reads. A property that is not set is \<open>JUndefined\<close>.
\<close>

record err =
  err_message :: string
  err_statusCode :: json
  err_json :: json

datatype hval = HStr string | HNum nat

record response =
  statusCode :: json
  headers :: "string \<Rightarrow> hval option"
  ended :: "string option"

text \<open>
  \<open>JSON.stringify\<close> and \<open>Buffer.byteLength\<close> are the platform's; they are parameters.
  The handler logs the error, sets the status and ends the response; the result is the
  log entry and the response.
\<close>

definition defaultError ::
  "(json \<Rightarrow> string) \<Rightarrow> (string \<Rightarrow> nat) \<Rightarrow> err \<Rightarrow> response \<Rightarrow> err list \<times> response" where
  "defaultError stringify byteLength e res =
     (let res1 = res\<lparr> statusCode := js_or (err_statusCode e) (JNum 500) \<rparr>
      in if truthy (err_json e) then
           (let resBody = stringify (err_json e)
            in ([e], res1\<lparr> headers := ((headers res1)
                                (''content-type'' \<mapsto> HStr ''application/json''))
                                (''content-length'' \<mapsto> HNum (byteLength resBody)),
                            ended := Some resBody \<rparr>))
         else ([e], res1\<lparr> ended := Some [] \<rparr>))"

text \<open>
  \<open>errStack(i)(err)\<close> of the listener calls \<open>self.errors[i](err, req, res, errStack(i + 1))\<close>.
  A handler registered by the application is a parameter \<open>user\<close>: it returns the response
  it leaves and, when it calls its continuation, the error it passes on. Calling
  \<open>self.errors[i]\<close> past the end of the list is a \<open>TypeError\<close>.
\<close>

fun errStack ::
  "(json \<Rightarrow> string) \<Rightarrow> (string \<Rightarrow> nat) \<Rightarrow> (nat \<Rightarrow> err \<Rightarrow> response \<Rightarrow> response \<times> err option)
     \<Rightarrow> fn list \<Rightarrow> err \<Rightarrow> response \<Rightarrow> exn + response" where
  "errStack S B user [] e res = Inl TypeError"
| "errStack S B user (DefaultError # hs) e res = Inr (snd (defaultError S B e res))"
| "errStack S B user (Fn i n # hs) e res =
     (case user i e res of
        (res', None) \<Rightarrow> Inr res'
      | (res', Some e') \<Rightarrow> errStack S B user hs e' res')"


section \<open>The controller (controller/index.js)\<close>

subsection \<open>Property access\<close>

text \<open>The decimal name of an array index.\<close>

fun dec :: "nat \<Rightarrow> string" where
  "dec n =
     (if n < 10 then [''0123456789'' ! n]
      else dec (n div 10) @ [''0123456789'' ! (n mod 10)])"

declare dec.simps [simp del]

text \<open>
  \<open>v[k]\<close>: reading a property of \<open>null\<close> or \<open>undefined\<close> throws a \<open>TypeError\<close>; an array
  and a string have their indices and \<open>length\<close>; a number and a boolean have no own
  property.
\<close>

fun get_prop :: "json \<Rightarrow> string \<Rightarrow> exn + json" where
  "get_prop JUndefined k = Inl TypeError"
| "get_prop JNull k = Inl TypeError"
| "get_prop (JBool b) k = Inr JUndefined"
| "get_prop (JNum n) k = Inr JUndefined"
| "get_prop (JStr s) k =
     Inr (if k = ''length'' then JNum (int (length s))
          else (case find (\<lambda>i. dec i = k) [0..<length s] of
                  None \<Rightarrow> JUndefined
                | Some i \<Rightarrow> JStr [s ! i]))"
| "get_prop (JArr xs) k =
     Inr (if k = ''length'' then JNum (int (length xs))
          else (case find (\<lambda>i. dec i = k) [0..<length xs] of
                  None \<Rightarrow> JUndefined
                | Some i \<Rightarrow> xs ! i))"
| "get_prop (JObj kvs) k =
     Inr (case map_of kvs k of None \<Rightarrow> JUndefined | Some v \<Rightarrow> v)"

text \<open>
  \<open>v.hasOwnProperty(k)\<close>. The method is inherited; an object that has a property named
  \<open>hasOwnProperty\<close> of its own hides it, and the call throws, as no JSON value is a
  function.
\<close>

fun hasOwnProperty :: "json \<Rightarrow> string \<Rightarrow> exn + bool" where
  "hasOwnProperty JUndefined k = Inl TypeError"
| "hasOwnProperty JNull k = Inl TypeError"
| "hasOwnProperty (JBool b) k = Inr False"
| "hasOwnProperty (JNum n) k = Inr False"
| "hasOwnProperty (JStr s) k =
     Inr (k = ''length'' \<or> find (\<lambda>i. dec i = k) [0..<length s] \<noteq> None)"
| "hasOwnProperty (JArr xs) k =
     Inr (k = ''length'' \<or> find (\<lambda>i. dec i = k) [0..<length xs] \<noteq> None)"
| "hasOwnProperty (JObj kvs) k =
     (if map_of kvs ''hasOwnProperty'' \<noteq> None then Inl TypeError
      else Inr (map_of kvs k \<noteq> None))"

text \<open>\<open>o[k] = v\<close> on an object: the property is replaced where it is, or added at the
  end.\<close>

fun set_prop :: "(string \<times> json) list \<Rightarrow> string \<Rightarrow> json \<Rightarrow> (string \<times> json) list" where
  "set_prop [] k v = [(k, v)]"
| "set_prop ((k', v') # kvs) k v =
     (if k' = k then (k, v) # kvs else (k', v') # set_prop kvs k v)"

subsection \<open>The gate: \<open>requiredDataPresent\<close>\<close>

text \<open>
  The predicate passed to \<open>_.every\<close>, for one required datasource key:
  \<open>data.hasOwnProperty(datasource) && data[datasource].hasOwnProperty('results') &&
  data[datasource].results.length !== 0\<close>.
\<close>

definition required_present :: "json \<Rightarrow> string \<Rightarrow> exn + bool" where
  "required_present data datasource =
     (case hasOwnProperty data datasource of
        Inl e \<Rightarrow> Inl e
      | Inr False \<Rightarrow> Inr False
      | Inr True \<Rightarrow>
          (case get_prop data datasource of
             Inl e \<Rightarrow> Inl e
           | Inr d \<Rightarrow>
               (case hasOwnProperty d ''results'' of
                  Inl e \<Rightarrow> Inl e
                | Inr False \<Rightarrow> Inr False
                | Inr True \<Rightarrow>
                    (case get_prop d ''results'' of
                       Inl e \<Rightarrow> Inl e
                     | Inr rs \<Rightarrow>
                         (case get_prop rs ''length'' of
                            Inl e \<Rightarrow> Inl e
                          | Inr len \<Rightarrow> Inr (len \<noteq> JNum 0))))))"

text \<open>\<open>_.every\<close> stops at the first key for which the predicate is false.\<close>

fun every_required :: "json \<Rightarrow> string list \<Rightarrow> exn + bool" where
  "every_required data [] = Inr True"
| "every_required data (d # ds) =
     (case required_present data d of
        Inl e \<Rightarrow> Inl e
      | Inr False \<Rightarrow> Inr False
      | Inr True \<Rightarrow> every_required data ds)"

definition requiredDataPresent :: "string list \<Rightarrow> json \<Rightarrow> exn + bool" where
  "requiredDataPresent requiredDatasources data =
     (if requiredDatasources = [] then Inr True
      else every_required data requiredDatasources)"

subsection \<open>The callback that \<open>process\<close> gives to \<open>loadData\<close>\<close>

text \<open>
  How the handling of one request can end: \<open>next()\<close> moves on to the router's not-found
  handler, \<open>next(err)\<close> enters the error chain, a response is sent with a status and a
  body, or an exception leaves the callback.
\<close>

datatype outcome =
    Next
  | NextErr err
  | Sent json json
  | Throws exn

text \<open>
  Modelled from the spec: \<open>Send.json\<close> and \<open>Send.html\<close> (lib/view/send) are not among the
  sources. The continuation they build is taken to do what the specification says of a
  request that fails (the error enters the error-handler chain) and of one that succeeds
  (the response is sent with the status given), which is also what \<open>sendBackJSON\<close> and
  \<open>sendBackHTML\<close> of help.js do: \<open>if (err) return next(err)\<close>, else set the status and end
  the response.
\<close>

definition Send :: "json \<Rightarrow> err option \<Rightarrow> json \<Rightarrow> outcome" where
  "Send status e results =
     (case e of Some er \<Rightarrow> NextErr er | None \<Rightarrow> Sent status results)"

text \<open>
  What the callback \<open>(err, data, dsResponse) => ...\<close> of \<open>Controller.process\<close> does with
  one completion of the load; \<open>res_statusCode\<close> is \<open>res.statusCode\<close> as the request came
  in. Before the data is sent or rendered the callback attaches \<open>stats\<close>, \<open>version\<close> and
  \<open>templatingEngine\<close> to it; these decorations are left out of the value that is sent.
  Attaching them to something that is not an object throws (the files are in strict
  mode). The renderer is a parameter.
\<close>

fun is_object :: "json \<Rightarrow> bool" where
  "is_object (JObj kvs) = True"
| "is_object (JArr xs) = True"
| "is_object _ = False"

definition process_cb ::
  "string list \<Rightarrow> (json \<Rightarrow> err + json) \<Rightarrow> json \<Rightarrow> err option \<Rightarrow> json \<Rightarrow> json \<Rightarrow> outcome" where
  "process_cb requiredDatasources render res_statusCode e data dsResponse =
     (let status = js_or res_statusCode (JNum 200)
      in case requiredDataPresent requiredDatasources data of
           Inl x \<Rightarrow> Throws x
         | Inr False \<Rightarrow> Next
         | Inr True \<Rightarrow>
             (case e of
                Some er \<Rightarrow>
                  if truthy (err_statusCode er) \<and> err_statusCode er = JNum 404 then Next
                  else Send status (Some er) JUndefined
              | None \<Rightarrow>
                  if truthy dsResponse \<and> get_prop dsResponse ''statusCode'' = Inr (JNum 202)
                  then Send (JNum 202) None data
                  else if \<not> is_object data then Throws TypeError
                  else if (case get_prop data ''json'' of Inl x \<Rightarrow> False | Inr j \<Rightarrow> truthy j)
                  then Send status None data
                  else (case render data of
                          Inl er \<Rightarrow> NextErr er
                        | Inr page \<Rightarrow> Send status None page)))"


subsection \<open>Events (event/index.js)\<close>

text \<open>
  The working data set is the object built by \<open>buildInitialViewData\<close>: an association
  list. An event is a module found on disk by its name. Its handler receives the data
  object, may change it in place, and either calls back once with \<open>(err, result)\<close> or
  throws before it has called back; handlers that call back later, twice or never are
  outside this model. Each result carries the data object as the handler left it.
\<close>

type_synonym obj = "(string \<times> json) list"

record event =
  ev_page :: string
  ev_name :: string
  ev_eventPath :: string

datatype handler_result =
    Handler_throws obj exn
  | Handler_calls obj "err option" json

datatype event_module =
    Missing                             \<comment> \<open>\<open>fs.existsSync(filepath)\<close> is false\<close>
  | Broken exn                          \<comment> \<open>\<open>require(filepath)\<close> throws\<close>
  | Handler "obj \<Rightarrow> handler_result"

definition loadEvent :: "(string \<Rightarrow> event_module) \<Rightarrow> event \<Rightarrow> exn + (obj \<Rightarrow> handler_result)" where
  "loadEvent modules ev =
     (case modules (ev_name ev) of
        Missing \<Rightarrow>
          Inl (Thrown (''Page \"'' @ ev_page ev @ ''\" references event \"'' @ ev_name ev
                        @ ''\" which can't be found in \"'' @ ev_eventPath ev @ ''\"''))
      | Broken x \<Rightarrow> Inl x
      | Handler h \<Rightarrow> Inr h)"

datatype log = LogExn exn | LogErr err | LogWarn string

text \<open>
  \<open>Event.run\<close>: what is logged, the data object afterwards, and the arguments with which
  \<open>done\<close> is called.
\<close>

definition Event_run ::
  "(string \<Rightarrow> event_module) \<Rightarrow> event \<Rightarrow> obj \<Rightarrow> log list \<times> obj \<times> err option \<times> json" where
  "Event_run modules ev data =
     (case loadEvent modules ev of
        Inl x \<Rightarrow> ([LogExn x], data, None, JNull)
      | Inr h \<Rightarrow>
          (case h data of
             Handler_throws d x \<Rightarrow> ([LogExn x], d, None, JNull)
           | Handler_calls d e r \<Rightarrow>
               ((case e of None \<Rightarrow> [] | Some er \<Rightarrow> [LogErr er]), d, e, r)))"

text \<open>
  The callback that \<open>loadEventData\<close> gives to \<open>Event.run\<close>: an error rejects the promise;
  a result that carries this call's \<open>checkValue\<close> becomes the data of \<open>loadEventData\<close>
  (\<open>data = result\<close>); any other truthy result is stored under the event's name.
\<close>

definition event_cb :: "string \<Rightarrow> string \<Rightarrow> obj \<Rightarrow> err option \<Rightarrow> json \<Rightarrow> err + obj" where
  "event_cb checkValue nm data e result =
     (case e of
        Some er \<Rightarrow> Inl er
      | None \<Rightarrow>
          (case result of
             JObj kvs \<Rightarrow>
               if map_of kvs ''checkValue'' = Some (JStr checkValue) \<and> checkValue \<noteq> []
               then Inr kvs
               else Inr (set_prop data nm result)
           | _ \<Rightarrow> if truthy result then Inr (set_prop data nm result) else Inr data))"

text \<open>
  \<open>loadEventData\<close> runs the events one after the other; \<open>now i\<close> is the digest of the
  clock at the \<open>i\<close>-th run. The result is the log and the argument of \<open>done\<close>: the error
  of the first event that reports one, or the data.
\<close>

fun loadEventData ::
  "(string \<Rightarrow> event_module) \<Rightarrow> (nat \<Rightarrow> string) \<Rightarrow> nat \<Rightarrow> event list \<Rightarrow> obj
     \<Rightarrow> log list \<times> (err + obj)" where
  "loadEventData modules now i [] data = ([], Inr data)"
| "loadEventData modules now i (ev # evs) data =
     (case Event_run modules ev (set_prop data ''checkValue'' (JStr (now i))) of
        (lg, d, e, result) \<Rightarrow>
          (case event_cb (now i) (ev_name ev) d e result of
             Inl er \<Rightarrow> (lg, Inl er)
           | Inr d' \<Rightarrow>
               (case loadEventData modules now (Suc i) evs d' of
                  (lg', r) \<Rightarrow> (lg @ lg', r))))"

subsection \<open>The steps of a load\<close>

text \<open>
  What \<open>loadData\<close> does is told as a list of steps, in the order in which they happen:
  an event is run, the \<open>load\<close> of a provider is called (the step says what error the
  provider delivers, if any), something is logged, \<open>done\<close> is called. A call of \<open>done\<close>
  is kept with its three arguments \<open>(err, data, dsResponse)\<close> and with what the
  continuation did with them.
\<close>

datatype step =
    Ran_event string
  | Fetched string "err option"
  | Fetched_chained string "err option"
  | Logged log
  | Called_done "err option" json json outcome

type_synonym callback = "err option \<Rightarrow> json \<Rightarrow> json \<Rightarrow> outcome"

definition call_done :: "callback \<Rightarrow> err option \<Rightarrow> json \<Rightarrow> json \<Rightarrow> step" where
  "call_done cb e d r = Called_done e d r (cb e d r)"

fun thrown :: "outcome \<Rightarrow> exn option" where
  "thrown (Throws x) = Some x"
| "thrown _ = None"

fun is_done :: "step \<Rightarrow> bool" where
  "is_done (Called_done e d r out) = True"
| "is_done _ = False"

text \<open>The calls of \<open>done\<close> among the steps.\<close>

definition done_calls :: "step list \<Rightarrow> step list" where
  "done_calls steps = filter is_done steps"

subsection \<open>The events of a stage, and the data object of \<open>loadData\<close>\<close>

text \<open>
  \<open>loadData\<close> hands its data object to \<open>loadEventData\<close> and takes nothing back: the
  callback of the stage drops the result, and the stages that follow read the object
  that \<open>loadData\<close> was given. That object changes as long as the events work on it: it
  gets the \<open>checkValue\<close>, the handler changes it in place, a result is stored in it. Once
  an event has answered with another object that carries the \<open>checkValue\<close>,
  \<open>loadEventData\<close> goes on with that other object and the object of \<open>loadData\<close> stays as
  it is. A handler's result that carries the \<open>checkValue\<close> is the data object itself when
  it is equal to the object as the handler left it, and another object when it is not;
  a result that does not carry the \<open>checkValue\<close> is a value of its own.

  \<open>event_stage\<close> runs the events as \<open>loadEventData\<close> does and keeps both objects: \<open>own\<close>
  is the object of \<open>loadData\<close>, \<open>cur\<close> the one \<open>loadEventData\<close> is working on, and
  \<open>attached\<close> says that they are the same object. The result is the steps, the object of
  \<open>loadData\<close> at the end, and the argument of \<open>loadEventData\<close>'s callback.
\<close>

definition carries_checkValue :: "string \<Rightarrow> json \<Rightarrow> bool" where
  "carries_checkValue checkValue result =
     (case result of
        JObj kvs \<Rightarrow> map_of kvs ''checkValue'' = Some (JStr checkValue) \<and> checkValue \<noteq> []
      | _ \<Rightarrow> False)"

fun event_stage ::
  "(string \<Rightarrow> event_module) \<Rightarrow> (nat \<Rightarrow> string) \<Rightarrow> nat \<Rightarrow> event list \<Rightarrow> obj \<Rightarrow> obj \<Rightarrow> bool
     \<Rightarrow> step list \<times> obj \<times> (err + obj)" where
  "event_stage M clock i [] own cur attached = ([], own, Inr cur)"
| "event_stage M clock i (ev # evs) own cur attached =
     (case Event_run M ev (set_prop cur ''checkValue'' (JStr (clock i))) of
        (lg, d, e, result) \<Rightarrow>
          (case event_cb (clock i) (ev_name ev) d e result of
             Inl er \<Rightarrow>
               (Ran_event (ev_name ev) # map Logged lg, if attached then d else own, Inl er)
           | Inr d' \<Rightarrow>
               (let attached' = (if carries_checkValue (clock i) result
                                 then attached \<and> d' = d else attached);
                    own' = (if attached' then d' else if attached then d else own)
                in case event_stage M clock (Suc i) evs own' d' attached' of
                     (st, own'', r) \<Rightarrow>
                       (Ran_event (ev_name ev) # map Logged lg @ st, own'', r))))"

subsection \<open>Datasources as the controller sees them\<close>

record outputParam =
  op_param :: "string option"
  op_type :: "string option"
  op_field :: "string option"
  op_query :: json

record chained =
  ch_datasource :: string
  ch_outputParam :: "outputParam option"

text \<open>
  The fields of a datasource that \<open>loadData\<close> and \<open>processChained\<close> read and write.
  \<open>ds_cache\<close>, \<open>ds_paginate\<close>, \<open>ds_page\<close>, \<open>ds_filter\<close> and \<open>ds_filterEventResult\<close> stand
  for the properties of \<open>schema.datasource\<close>. \<open>loadData\<close> works on \<open>_.clone(ds)\<close>, a
  shallow copy: the copy's \<open>schema\<close> is the very object of the controller's datasource,
  so a write to \<open>ds.schema.datasource\<close> is a write to the shared datasource.
\<close>

record datasource =
  ds_name :: string
  ds_key :: string
  ds_chained :: "chained option"
  ds_filterEvent :: "event option"
  ds_cache :: json
  ds_paginate :: json
  ds_page :: json
  ds_filter :: obj
  ds_filterEventResult :: json

subsection \<open>Values that are not data\<close>

text \<open>
  The working data set and what the providers deliver are JSON values. \<open>processChained\<close>
  reads properties by names that come from a schema, \<open>data[parent]\<close> and \<open>o[x]\<close>, and
  such a read can leave the data: \<open>toString\<close> or \<open>constructor\<close> is found on the
  prototype, and the data object built by \<open>buildInitialViewData\<close> has the two functions
  \<open>has\<close> and \<open>hasResults\<close> as properties of its own. A value of that kind is a \<open>Native\<close>,
  known by a name; it is truthy. What the prototype chain holds for a JSON value under a
  name that is not a property of its own, and what the properties of a native value are,
  is the platform's: \<open>inherited\<close> and \<open>native_get\<close> below. The name \<open>__proto__\<close>, which an
  assignment takes for the prototype and not for a property, is taken not to be the key
  of a datasource, the name of an event or the name of a filter field.
\<close>

datatype jsval = Data json | Native string

fun truthy_js :: "jsval \<Rightarrow> bool" where
  "truthy_js (Data v) = truthy v"
| "truthy_js (Native n) = True"

text \<open>The property \<open>k\<close> that a JSON value has of its own, if it has one.\<close>

fun own_prop :: "json \<Rightarrow> string \<Rightarrow> json option" where
  "own_prop (JObj kvs) k = map_of kvs k"
| "own_prop (JArr xs) k =
     (if k = ''length'' then Some (JNum (int (length xs)))
      else (case find (\<lambda>i. dec i = k) [0..<length xs] of
              None \<Rightarrow> None
            | Some i \<Rightarrow> Some (xs ! i)))"
| "own_prop (JStr s) k =
     (if k = ''length'' then Some (JNum (int (length s)))
      else (case find (\<lambda>i. dec i = k) [0..<length s] of
              None \<Rightarrow> None
            | Some i \<Rightarrow> Some (JStr [s ! i])))"
| "own_prop _ k = None"

text \<open>
  What is outside the controller: the event modules; the clock; whether
  \<open>processSearchParameters\<close> (that is \<open>processRequest\<close>, which has a section of its own)
  throws for a datasource; what a provider's \<open>load\<close> delivers to its callback for this
  request (\<open>(err, result, dsResponse)\<close>); the prototypes; the platform's \<open>parseInt\<close> and
  \<open>encodeURIComponent\<close>; and the textual substitution of the chained query into the
  filter (\<open>JSON.stringify\<close>, two \<open>replace\<close> calls and \<open>JSON.parse\<close>, which may throw). The
  other functions of a provider (\<open>initialise\<close>, \<open>buildEndpoint\<close>, \<open>destroy\<close>) are taken to
  return. Providers are taken to call back after the loop that starts them, in the order
  in which they were started, and not to catch what their callback throws; the handler
  of an event is taken to call back before \<open>run\<close> returns and not to catch what the
  callback throws.
\<close>

record env =
  modules :: "string \<Rightarrow> event_module"
  now :: "nat \<Rightarrow> string"
  prepare :: "datasource \<Rightarrow> exn option"
  load :: "datasource \<Rightarrow> err option \<times> json \<times> json"
  inherited :: "json \<Rightarrow> string \<Rightarrow> jsval"
  native_get :: "string \<Rightarrow> string \<Rightarrow> jsval"
  parseInt :: "jsval \<Rightarrow> json"
  encodeURIComponent :: "jsval \<Rightarrow> string"
  inject_query :: "string \<Rightarrow> json \<Rightarrow> json \<Rightarrow> obj \<Rightarrow> exn + obj"
  passFilters :: bool
  params_page :: json

text \<open>\<open>v[k]\<close> for a truthy \<open>v\<close>, and \<open>data[k]\<close> for the data object of \<open>loadData\<close>.\<close>

definition read_prop :: "env \<Rightarrow> jsval \<Rightarrow> string \<Rightarrow> jsval" where
  "read_prop E v k =
     (case v of
        Native n \<Rightarrow> native_get E n k
      | Data j \<Rightarrow> (case own_prop j k of Some w \<Rightarrow> Data w | None \<Rightarrow> inherited E j k))"

definition data_prop :: "env \<Rightarrow> obj \<Rightarrow> string \<Rightarrow> jsval" where
  "data_prop E data k =
     (case map_of data k of
        Some v \<Rightarrow> Data v
      | None \<Rightarrow> if k = ''has'' \<or> k = ''hasResults'' then Native k
                else inherited E (JObj data) k)"

subsection \<open>The primary fetch\<close>

text \<open>
  The filter event of a datasource. An error of the event is passed to \<open>done\<close> and the
  worker goes on all the same. When \<open>done\<close> throws, the exception comes out of the
  handler inside the \<open>try\<close> of \<open>Event.run\<close>, which logs it and calls back a second time,
  with \<open>(null, null)\<close>: the result of the filter event is then \<open>null\<close>.
\<close>

definition run_filterEvent ::
  "env \<Rightarrow> callback \<Rightarrow> datasource \<Rightarrow> obj \<Rightarrow> step list \<times> datasource \<times> obj" where
  "run_filterEvent E cb ds data =
     (case ds_filterEvent ds of
        None \<Rightarrow> ([], ds, data)
      | Some ev \<Rightarrow>
          (case Event_run (modules E) ev data of
             (lg, d, Some er, f) \<Rightarrow>
               (case thrown (cb (Some er) JUndefined JUndefined) of
                  None \<Rightarrow>
                    (Ran_event (ev_name ev) # map Logged lg
                       @ [call_done cb (Some er) JUndefined JUndefined],
                     ds, d)
                | Some x \<Rightarrow>
                    (Ran_event (ev_name ev) # map Logged lg
                       @ [call_done cb (Some er) JUndefined JUndefined, Logged (LogExn x)],
                     ds\<lparr> ds_filterEventResult := JNull \<rparr>, d))
           | (lg, d, None, f) \<Rightarrow>
               (Ran_event (ev_name ev) # map Logged lg, ds\<lparr> ds_filterEventResult := f \<rparr>, d)))"

text \<open>
  The worker of the queue (concurrency 1), for the datasources in order. The result is
  the steps, the exception that nothing caught (if any), the data object as it is left,
  and whether the queue drained. A fetch error, or a fetch that delivers a raw response,
  calls \<open>done\<close> and never calls \<open>cb\<close>: the queue stops there; so it does when
  \<open>processSearchParameters\<close> throws.
\<close>

fun primary_queue ::
  "env \<Rightarrow> callback \<Rightarrow> (string \<times> datasource) list \<Rightarrow> obj
     \<Rightarrow> step list \<times> exn option \<times> obj \<times> bool" where
  "primary_queue E cb [] data = ([], None, data, True)"
| "primary_queue E cb ((k, ds) # rest) data =
     (case run_filterEvent E cb ds data of
        (st1, ds1, data1) \<Rightarrow>
          (case prepare E ds1 of
             Some x \<Rightarrow> (st1, Some x, data1, False)
           | None \<Rightarrow>
               (case load E ds1 of
                  (Some er, result, dsResponse) \<Rightarrow>
                    (st1 @ [Fetched k (Some er), call_done cb (Some er) JUndefined JUndefined],
                     thrown (cb (Some er) JUndefined JUndefined), data1, False)
                | (None, result, dsResponse) \<Rightarrow>
                    if truthy dsResponse
                    then (st1 @ [Fetched k None, call_done cb None result dsResponse],
                          thrown (cb None result dsResponse), data1, False)
                    else (case primary_queue E cb rest
                                 (if truthy result then set_prop data1 (ds_key ds1) result
                                  else data1) of
                            (st, u, d, drained) \<Rightarrow> (st1 @ Fetched k None # st, u, d, drained)))))"

subsection \<open>The chained fetch: \<open>processChained\<close>\<close>

definition chained_message :: "string \<Rightarrow> string \<Rightarrow> string" where
  "chained_message nm parent =
     ''Chained datasource '' @ [CHR 0x27] @ nm @ [CHR 0x27]
       @ '' expected to find data from datasource '' @ [CHR 0x27] @ parent @ [CHR 0x27] @ ''.''"

text \<open>An \<open>Error\<close> object with a message only, and the object that a caught exception is.\<close>

definition error_with :: "string \<Rightarrow> err" where
  "error_with m = \<lparr> err_message = m, err_statusCode = JUndefined, err_json = JUndefined \<rparr>"

fun exn_message :: "exn \<Rightarrow> string" where
  "exn_message TypeError = ''TypeError''"
| "exn_message SyntaxError = ''SyntaxError''"
| "exn_message (Thrown m) = m"

text \<open>
  \<open>param.split('.').reduce(function (o, x) { return o ? o[x] : '' }, data[parent])\<close>.
\<close>

definition extract_param :: "env \<Rightarrow> jsval \<Rightarrow> string \<Rightarrow> jsval" where
  "extract_param E parent p =
     fold (\<lambda>x acc. if truthy_js acc then read_prop E acc x else Data (JStr []))
          (split_on CHR ''.'' p) parent"

text \<open>
  The body of the \<open>_.each\<close> for one chained datasource, up to the call of the provider's
  \<open>load\<close>: the datasource is answered with an error passed to \<open>done\<close> (\<open>data[parent]\<close> is
  falsy, or the extraction throws), or its fetch is started with the schema rewritten,
  or an exception leaves the loop (reading \<open>data.query.cache\<close> without a \<open>query\<close>, or a
  filter that no longer parses).
\<close>

datatype chained_step =
    Skipped err
  | Started datasource
  | Uncaught datasource exn

definition start_chained :: "env \<Rightarrow> obj \<Rightarrow> datasource \<Rightarrow> log list \<times> chained_step" where
  "start_chained E data ds =
     (case ds_chained ds of
        None \<Rightarrow> ([], Uncaught ds TypeError)
      | Some c \<Rightarrow>
          if \<not> truthy_js (data_prop E data (ch_datasource c)) then
            ([LogWarn (chained_message (ds_name ds) (ch_datasource c))],
             Skipped (error_with (chained_message (ds_name ds) (ch_datasource c))))
          else
            (case ch_outputParam c of
               None \<Rightarrow> ([], Skipped (error_with (exn_message TypeError)))
             | Some op \<Rightarrow>
                 (case op_param op of
                    None \<Rightarrow> ([], Skipped (error_with (exn_message TypeError)))
                  | Some p \<Rightarrow>
                      (let extracted = extract_param E (data_prop E data (ch_datasource c)) p;
                           param = (if op_type op = Some ''Number''
                                    then parseInt E extracted
                                    else JStr (encodeURIComponent E extracted))
                       in case get_prop (case map_of data ''query'' of
                                           None \<Rightarrow> JUndefined | Some q \<Rightarrow> q) ''cache'' of
                            Inl x \<Rightarrow> ([], Uncaught ds x)
                          | Inr cache \<Rightarrow>
                              (let ds1 = (if cache = JStr ''false''
                                          then ds\<lparr> ds_cache := JBool False \<rparr> else ds);
                                   ds2 = (if passFilters E \<and> truthy (ds_paginate ds1)
                                          then ds1\<lparr> ds_page :=
                                            js_or (case map_of data ''query'' of
                                                     None \<Rightarrow> JUndefined
                                                   | Some q \<Rightarrow>
                                                       (case get_prop q ''page'' of
                                                          Inl x \<Rightarrow> JUndefined
                                                        | Inr v \<Rightarrow> v))
                                              (js_or (params_page E) (JNum 1)) \<rparr>
                                          else ds1);
                                   ds3 = (case op_field op of
                                            None \<Rightarrow> ds2
                                          | Some f \<Rightarrow>
                                              if f = [] then ds2
                                              else ds2\<lparr> ds_filter :=
                                                     set_prop (ds_filter ds2) f param \<rparr>)
                               in if truthy (op_query op) then
                                    (case inject_query E (ch_datasource c) (op_query op)
                                            param (ds_filter ds3) of
                                       Inl x \<Rightarrow> ([], Uncaught ds3 x)
                                     | Inr f \<Rightarrow> ([], Started (ds3\<lparr> ds_filter := f \<rparr>)))
                                  else ([], Started ds3))))))"

text \<open>
  The loop. \<open>done\<close> is called inside it: when \<open>done\<close> throws, the exception ends the
  loop as any other does, and the datasources after it are not looked at. The result is
  the steps, the datasources as they are left, the fetches started, and the exception
  that ended the loop, if one did.
\<close>

fun start_all ::
  "env \<Rightarrow> callback \<Rightarrow> obj \<Rightarrow> (string \<times> datasource) list
     \<Rightarrow> step list \<times> (string \<times> datasource) list \<times> (string \<times> datasource) list \<times> exn option" where
  "start_all E cb data [] = ([], [], [], None)"
| "start_all E cb data ((k, ds) # rest) =
     (case start_chained E data ds of
        (lg, Skipped er) \<Rightarrow>
          (case thrown (cb (Some er) JUndefined JUndefined) of
             Some x \<Rightarrow>
               (map Logged lg @ [call_done cb (Some er) JUndefined JUndefined],
                (k, ds) # rest, [], Some x)
           | None \<Rightarrow>
               (case start_all E cb data rest of
                  (st, ts, started, u) \<Rightarrow>
                    (map Logged lg @ call_done cb (Some er) JUndefined JUndefined # st,
                     (k, ds) # ts, started, u)))
      | (lg, Started ds') \<Rightarrow>
          (case start_all E cb data rest of
             (st, ts, started, u) \<Rightarrow>
               (map Logged lg @ Fetched_chained k (fst (load E ds')) # st,
                (k, ds') # ts, (k, ds') # started, u))
      | (lg, Uncaught ds' x) \<Rightarrow> (map Logged lg, (k, ds') # rest, [], Some x))"

text \<open>
  The callbacks of the fetches that were started: an error is logged and nothing else is
  done with it; data that arrived is stored under the datasource's key.
\<close>

fun finish_all :: "env \<Rightarrow> (string \<times> datasource) list \<Rightarrow> obj \<Rightarrow> step list \<times> obj" where
  "finish_all E [] data = ([], data)"
| "finish_all E ((k, ds) # rest) data =
     (case load E ds of
        (e, chainedData, dsResponse) \<Rightarrow>
          (case finish_all E rest
                  (if truthy chainedData then set_prop data k chainedData else data) of
             (st, d) \<Rightarrow> ((case e of None \<Rightarrow> [] | Some er \<Rightarrow> [Logged (LogErr er)]) @ st, d)))"

text \<open>
  \<open>processChained\<close>. Its own \<open>done\<close> is the callback of the stage, which passes an error
  on to the \<open>done\<close> of \<open>loadData\<close> and, without an error, starts the next stage:
  \<open>pc_complete\<close> says that \<open>processChained\<close> has called back without an error, which it
  does when there is no chained datasource, or when the last of the fetches, all
  started, has called back.
\<close>

record chained_result =
  pc_steps :: "step list"
  pc_datasources :: "(string \<times> datasource) list"
  pc_data :: obj
  pc_uncaught :: "exn option"
  pc_complete :: bool

definition processChained ::
  "env \<Rightarrow> callback \<Rightarrow> (string \<times> datasource) list \<Rightarrow> obj \<Rightarrow> chained_result" where
  "processChained E cb chainedDatasources data =
     (if chainedDatasources = [] then
        \<lparr> pc_steps = [], pc_datasources = [], pc_data = data, pc_uncaught = None,
          pc_complete = True \<rparr>
      else
        (case start_all E cb data chainedDatasources of
           (st, ts, started, u) \<Rightarrow>
             (case finish_all E started data of
                (st', d) \<Rightarrow>
                  \<lparr> pc_steps = st @ st', pc_datasources = ts, pc_data = d, pc_uncaught = u,
                    pc_complete = (length started = length chainedDatasources) \<rparr>)))"

subsection \<open>\<open>loadData\<close>\<close>

text \<open>
  The result of a load: the steps, the data object of \<open>loadData\<close> as it is at the end,
  and the exception that nothing caught, if there is one.
\<close>

record load_result =
  lr_steps :: "step list"
  lr_data :: obj
  lr_uncaught :: "exn option"

definition after_steps :: "step list \<Rightarrow> load_result \<Rightarrow> load_result" where
  "after_steps st r = r\<lparr> lr_steps := st @ lr_steps r \<rparr>"

text \<open>The error object that a caught exception is, when it is passed on as an error.\<close>

definition exn_error :: "exn \<Rightarrow> err" where
  "exn_error x = error_with (exn_message x)"

text \<open>
  The four stages of the waterfall. Each stage's callback passes an error straight to
  \<open>done\<close> and otherwise starts the next stage; the last one calls \<open>done(null, data)\<close>
  with the data object of \<open>loadData\<close>. When the controller has datasources but none of
  them is primary, nothing is pushed to the queue, \<open>drain\<close> is never called and \<open>done\<close>
  is never called.

  When there are postload events, the final call of \<open>done\<close> is made inside the \<open>then\<close> of
  the promise of \<open>loadEventData\<close> (async.waterfall calls the final callback in the stack
  of the last task's callback, unless the task has not returned yet): an exception that
  \<open>done\<close> throws there is caught by the \<open>catch\<close> of that promise and passed to \<open>done\<close> as
  an error. Everywhere else an exception that \<open>done\<close> throws is caught by nothing.
\<close>

definition postload_stage :: "env \<Rightarrow> callback \<Rightarrow> nat \<Rightarrow> event list \<Rightarrow> obj \<Rightarrow> load_result" where
  "postload_stage E cb i events data =
     (case event_stage (modules E) (now E) i events data data True of
        (st, own, Inl er) \<Rightarrow>
          \<lparr> lr_steps = st @ [call_done cb (Some er) JUndefined JUndefined], lr_data = own,
            lr_uncaught = thrown (cb (Some er) JUndefined JUndefined) \<rparr>
      | (st, own, Inr cur) \<Rightarrow>
          (case thrown (cb None (JObj own) JUndefined) of
             None \<Rightarrow>
               \<lparr> lr_steps = st @ [call_done cb None (JObj own) JUndefined], lr_data = own,
                 lr_uncaught = None \<rparr>
           | Some x \<Rightarrow>
               if events = [] then
                 \<lparr> lr_steps = st @ [call_done cb None (JObj own) JUndefined], lr_data = own,
                   lr_uncaught = Some x \<rparr>
               else
                 \<lparr> lr_steps = st @ [call_done cb None (JObj own) JUndefined,
                                    call_done cb (Some (exn_error x)) JUndefined JUndefined],
                   lr_data = own,
                   lr_uncaught = thrown (cb (Some (exn_error x)) JUndefined JUndefined) \<rparr>))"

definition chained_stage ::
  "env \<Rightarrow> callback \<Rightarrow> nat \<Rightarrow> (string \<times> datasource) list \<Rightarrow> event list \<Rightarrow> obj
     \<Rightarrow> load_result" where
  "chained_stage E cb i chainedDatasources events data =
     (let pc = processChained E cb chainedDatasources data
      in if pc_complete pc
         then after_steps (pc_steps pc) (postload_stage E cb i events (pc_data pc))
         else \<lparr> lr_steps = pc_steps pc, lr_data = pc_data pc, lr_uncaught = pc_uncaught pc \<rparr>)"

definition primary_stage ::
  "env \<Rightarrow> callback \<Rightarrow> nat \<Rightarrow> (string \<times> datasource) list \<Rightarrow> (string \<times> datasource) list
     \<Rightarrow> event list \<Rightarrow> obj \<Rightarrow> load_result" where
  "primary_stage E cb i primaryDatasources chainedDatasources events data =
     (case primary_queue E cb primaryDatasources data of
        (st, u, d, drained) \<Rightarrow>
          if drained then after_steps st (chained_stage E cb i chainedDatasources events d)
          else \<lparr> lr_steps = st, lr_data = d, lr_uncaught = u \<rparr>)"

definition loadData ::
  "env \<Rightarrow> callback \<Rightarrow> (string \<times> datasource) list \<Rightarrow> event list \<Rightarrow> event list \<Rightarrow> obj
     \<Rightarrow> load_result" where
  "loadData E cb datasources preloadEvents events data =
     (let primaryDatasources = filter (\<lambda>(k, ds). ds_chained ds = None) datasources;
          chainedDatasources = filter (\<lambda>(k, ds). ds_chained ds \<noteq> None) datasources;
          i = length preloadEvents
      in case event_stage (modules E) (now E) 0 preloadEvents data data True of
           (st, own, Inl er) \<Rightarrow>
             \<lparr> lr_steps = st @ [call_done cb (Some er) JUndefined JUndefined], lr_data = own,
               lr_uncaught = thrown (cb (Some er) JUndefined JUndefined) \<rparr>
         | (st, own, Inr cur) \<Rightarrow>
             if datasources = [] then
               after_steps st (chained_stage E cb i chainedDatasources events own)
             else if primaryDatasources = [] then
               \<lparr> lr_steps = st, lr_data = own, lr_uncaught = None \<rparr>
             else
               after_steps st
                 (primary_stage E cb i primaryDatasources chainedDatasources events own))"

subsection \<open>\<open>Controller.process\<close>\<close>

text \<open>
  \<open>process\<close> builds the data object (\<open>buildInitialViewData\<close>; it is given here) and calls
  \<open>loadData\<close> with its callback as \<open>done\<close>.
\<close>

definition process ::
  "env \<Rightarrow> string list \<Rightarrow> (json \<Rightarrow> err + json) \<Rightarrow> json \<Rightarrow> (string \<times> datasource) list
     \<Rightarrow> event list \<Rightarrow> event list \<Rightarrow> obj \<Rightarrow> load_result" where
  "process E requiredDatasources render res_statusCode datasources preloadEvents events data =
     loadData E (process_cb requiredDatasources render res_statusCode)
       datasources preloadEvents events data"

subsection \<open>A small page, for the concrete instances\<close>

text \<open>
  Two primary datasources, \<open>makes\<close> and \<open>cars\<close>, and \<open>related\<close>, chained to \<open>makes\<close>
  through \<open>results.0.id\<close>. The provider of \<open>makes\<close> delivers one result; every other
  fetch fails with the error given to \<open>example_env\<close>. The platform of the example knows
  the names that a plain object inherits, and nothing about what they hold.
\<close>

definition example_ds :: "string \<Rightarrow> chained option \<Rightarrow> datasource" where
  "example_ds nm c =
     \<lparr> ds_name = nm, ds_key = nm, ds_chained = c, ds_filterEvent = None,
       ds_cache = JUndefined, ds_paginate = JUndefined, ds_page = JUndefined,
       ds_filter = [], ds_filterEventResult = JUndefined \<rparr>"

definition example_chained :: chained where
  "example_chained =
     \<lparr> ch_datasource = ''makes'',
       ch_outputParam = Some \<lparr> op_param = Some ''results.0.id'', op_type = None,
                               op_field = Some ''makeId'', op_query = JUndefined \<rparr> \<rparr>"

text \<open>A chain to a parent of any name; \<open>models\<close> is not a datasource of the page.\<close>

definition example_chained_to :: "string \<Rightarrow> chained" where
  "example_chained_to parent =
     \<lparr> ch_datasource = parent,
       ch_outputParam = Some \<lparr> op_param = Some ''results.0.id'', op_type = None,
                               op_field = Some ''makeId'', op_query = JUndefined \<rparr> \<rparr>"

text \<open>The names that a plain object inherits from \<open>Object.prototype\<close>.\<close>

definition object_prototype :: "string list" where
  "object_prototype =
     [''constructor'', ''toString'', ''toLocaleString'', ''valueOf'', ''hasOwnProperty'',
      ''isPrototypeOf'', ''propertyIsEnumerable'', ''__proto__'', ''__defineGetter__'',
      ''__defineSetter__'', ''__lookupGetter__'', ''__lookupSetter__'']"

definition example_env :: "err \<Rightarrow> env" where
  "example_env er =
     \<lparr> modules = (\<lambda>n. Missing),
       now = (\<lambda>i. ''c0ffee''),
       prepare = (\<lambda>ds. None),
       load = (\<lambda>ds. if ds_name ds = ''makes''
                     then (None, JObj [(''results'', JArr [JObj [(''id'', JStr ''7'')]])],
                           JUndefined)
                     else (Some er, JUndefined, JUndefined)),
       inherited = (\<lambda>v k. case v of
                             JObj kvs \<Rightarrow> if k \<in> set object_prototype then Native k
                                         else Data JUndefined
                           | _ \<Rightarrow> Data JUndefined),
       native_get = (\<lambda>n k. Data JUndefined),
       parseInt = (\<lambda>v. case v of Data (JNum n) \<Rightarrow> JNum n | _ \<Rightarrow> JNull),
       encodeURIComponent = (\<lambda>v. case v of Data (JStr s) \<Rightarrow> s | _ \<Rightarrow> []),
       inject_query = (\<lambda>parent q v f. Inr f),
       passFilters = False,
       params_page = JUndefined \<rparr>"

definition example_data :: obj where
  "example_data = [(''query'', JObj []), (''params'', JObj [])]"

subsection \<open>The gate, in the words of the specification\<close>

text \<open>
  \<open>has_results\<close> says what the specification asks of a required key: the working data
  set has the key, and its \<open>results\<close> list is not empty. \<open>entry_ok\<close> says when a value
  stored in the working data set is an entry of the kind the specification has in mind:
  it is neither \<open>null\<close> nor \<open>undefined\<close>, and when it is an object it has no property
  named \<open>hasOwnProperty\<close>, and its \<open>results\<close>, if it has any, is a list.
\<close>

fun entry_ok :: "json \<Rightarrow> bool" where
  "entry_ok JUndefined = False"
| "entry_ok JNull = False"
| "entry_ok (JObj kvs) =
     (map_of kvs ''hasOwnProperty'' = None \<and>
      (case map_of kvs ''results'' of
         None \<Rightarrow> True
       | Some (JArr rs) \<Rightarrow> True
       | Some _ \<Rightarrow> False))"
| "entry_ok _ = True"

definition has_results :: "obj \<Rightarrow> string \<Rightarrow> bool" where
  "has_results kvs k =
     (case map_of kvs k of
        Some (JObj d) \<Rightarrow>
          (case map_of d ''results'' of
             Some (JArr rs) \<Rightarrow> rs \<noteq> []
           | _ \<Rightarrow> False)
      | _ \<Rightarrow> False)"

section \<open>The datasource cache (cache/datasource.js)\<close>

text \<open>
  \<open>_.extend(dst, src)\<close>: every property of \<open>src\<close> is assigned to \<open>dst\<close>, which is changed
  in place and returned. The copy is shallow: a property that holds an object is
  replaced by the source's object as a whole.
\<close>

definition extend_obj :: "obj \<Rightarrow> obj \<Rightarrow> obj" where
  "extend_obj dst src = fold (\<lambda>(k, v) acc. set_prop acc k v) src dst"

text \<open>The own enumerable properties of a value, as \<open>_.extend\<close> walks them.\<close>

fun entries :: "json \<Rightarrow> obj" where
  "entries (JObj kvs) = kvs"
| "entries (JArr xs) = zip (map dec [0..<length xs]) xs"
| "entries _ = []"

text \<open>
  \<open>s.isBlank\<close> belongs to the third-party package underscore.string (\<open>/^\s*$/\<close> on the
  string that the value converts to, with the white space of the platform's regular
  expressions). It is a parameter of \<open>getOptions\<close> and \<open>cachingEnabled\<close>. \<open>ascii_isBlank\<close> is
  that function on strings whose characters are ASCII; the examples use it.
\<close>

definition whitespace :: "char \<Rightarrow> bool" where
  "whitespace c \<longleftrightarrow> c \<in> set [CHR '' '', CHR 0x09, CHR 0x0A, CHR 0x0B, CHR 0x0C, CHR 0x0D]"

fun ascii_isBlank :: "json \<Rightarrow> bool" where
  "ascii_isBlank JUndefined = True"
| "ascii_isBlank JNull = True"
| "ascii_isBlank (JStr s) = list_all whitespace s"
| "ascii_isBlank (JArr []) = True"
| "ascii_isBlank (JArr [x]) = ascii_isBlank x"
| "ascii_isBlank _ = False"

text \<open>
  The configuration as the cache reads it: \<open>config.get('caching')\<close> (a copy of its own
  for each reader), \<open>config.get('caching.directory.path')\<close> and \<open>config.get('debug')\<close>.
\<close>

record config =
  cfg_caching :: obj
  cfg_directory_path :: json
  cfg_debug :: json

text \<open>The singleton: \<open>this.enabled\<close> and \<open>this.cacheOptions\<close>.\<close>

record datasourceCache =
  dc_enabled :: bool
  dc_cacheOptions :: obj

definition field :: "obj \<Rightarrow> string \<Rightarrow> json" where
  "field kvs k = (case map_of kvs k of None \<Rightarrow> JUndefined | Some v \<Rightarrow> v)"

text \<open>
  The constructor: caching is enabled unless both stores are explicitly (\<open>=== false\<close>)
  disabled in the configuration.
\<close>

definition DatasourceCache :: "config \<Rightarrow> exn + datasourceCache" where
  "DatasourceCache cfg =
     (case get_prop (field (cfg_caching cfg) ''directory'') ''enabled'' of
        Inl x \<Rightarrow> Inl x
      | Inr directoryEnabled \<Rightarrow>
          (case get_prop (field (cfg_caching cfg) ''redis'') ''enabled'' of
             Inl x \<Rightarrow> Inl x
           | Inr redisEnabled \<Rightarrow>
               Inr \<lparr> dc_enabled =
                        (\<not> (directoryEnabled = JBool False \<and> redisEnabled = JBool False)),
                     dc_cacheOptions = cfg_caching cfg \<rparr>))"

text \<open>
  What \<open>cachingEnabled\<close> reads of a datasource: the endpoint its provider has built (if
  any), its source type and the \<open>caching\<close> block of its schema. \<open>url.parse(endpoint,
  true).query\<close> is Node's; it is a parameter.
\<close>

record cached_datasource =
  cd_endpoint :: "string option"
  cd_source_type :: string
  cd_caching :: json

text \<open>
  \<open>getOptions\<close>: the datasource's caching block is merged into \<open>this.cacheOptions\<close>
  itself, which is returned. A directory block without a path is replaced by one that
  has the configured path and nothing else.
\<close>

definition getOptions ::
  "config \<Rightarrow> (json \<Rightarrow> bool) \<Rightarrow> datasourceCache \<Rightarrow> cached_datasource \<Rightarrow> obj" where
  "getOptions cfg isBlank dc ds =
     (let options = extend_obj (dc_cacheOptions dc)
                      (entries (js_or (cd_caching ds) (JObj [])));
          directory = field options ''directory'';
          options1 =
            (if \<not> truthy directory
                \<or> isBlank (case get_prop directory ''path'' of Inl x \<Rightarrow> JUndefined | Inr p \<Rightarrow> p)
             then set_prop options ''directory'' (JObj [(''path'', cfg_directory_path cfg)])
             else options)
      in case field options1 ''directory'' of
           JObj d \<Rightarrow>
             set_prop options1 ''directory'' (JObj (set_prop d ''extension'' (JStr ''json'')))
         | _ \<Rightarrow> options1)"

text \<open>
  \<open>cachingEnabled\<close> returns the value of \<open>enabled && (options.directory.enabled ||
  options.redis.enabled)\<close> and leaves the merged options in the singleton.
\<close>

definition cachingEnabled ::
  "config \<Rightarrow> (json \<Rightarrow> bool) \<Rightarrow> (string \<Rightarrow> obj) \<Rightarrow> datasourceCache \<Rightarrow> cached_datasource
     \<Rightarrow> (exn + json) \<times> datasourceCache" where
  "cachingEnabled cfg isBlank parse_query dc ds =
     (let enabled0 = dc_enabled dc;
          enabled1 =
            (case cd_endpoint ds of
               None \<Rightarrow> enabled0
             | Some endpoint \<Rightarrow>
                 if truthy (field (parse_query endpoint) ''cache'')
                    \<and> field (parse_query endpoint) ''cache'' = JStr ''false''
                 then False else enabled0);
          enabled2 = (if cd_source_type ds = ''static'' then False else enabled1);
          enabled3 = (if truthy (cfg_debug cfg) then False else enabled2);
          options = getOptions cfg isBlank dc ds;
          dc' = dc\<lparr> dc_cacheOptions := options \<rparr>
      in if \<not> enabled3 then (Inr (JBool False), dc')
         else
           (case get_prop (field options ''directory'') ''enabled'' of
              Inl x \<Rightarrow> (Inl x, dc')
            | Inr de \<Rightarrow>
                if truthy de then (Inr de, dc')
                else (get_prop (field options ''redis'') ''enabled'', dc')))"

text \<open>
  The sentence of the specification: caching is enabled exactly when at least one
  backing store (directory or redis) is enabled, the process is not in debug mode, the
  query string of the current request does not disable caching, and the source type is
  not static.
\<close>

definition store_enabled :: "obj \<Rightarrow> bool" where
  "store_enabled caching \<longleftrightarrow>
     truthy (case get_prop (field caching ''directory'') ''enabled'' of
               Inl x \<Rightarrow> JUndefined | Inr v \<Rightarrow> v)
     \<or> truthy (case get_prop (field caching ''redis'') ''enabled'' of
                 Inl x \<Rightarrow> JUndefined | Inr v \<Rightarrow> v)"

definition spec_cachingEnabled :: "config \<Rightarrow> obj \<Rightarrow> cached_datasource \<Rightarrow> bool" where
  "spec_cachingEnabled cfg request_query ds \<longleftrightarrow>
     store_enabled (cfg_caching cfg) \<and> \<not> truthy (cfg_debug cfg)
     \<and> field request_query ''cache'' \<noteq> JStr ''false'' \<and> cd_source_type ds \<noteq> ''static''"

text \<open>
  What the code looks at instead. The configuration switches the cache off as a whole
  when it sets both stores to \<open>false\<close>. The options of a datasource are the configured
  ones with the entries of the datasource's own \<open>caching\<close> block put over them; in them
  the directory store counts when it has a path that is not blank and is enabled, the
  redis store when it is enabled. The query string is that of the endpoint which the
  provider of the datasource has built, if it has built one.
\<close>

definition config_enabled :: "config \<Rightarrow> bool" where
  "config_enabled cfg \<longleftrightarrow>
     \<not> (get_prop (field (cfg_caching cfg) ''directory'') ''enabled'' = Inr (JBool False)
        \<and> get_prop (field (cfg_caching cfg) ''redis'') ''enabled'' = Inr (JBool False))"

definition merged_options :: "config \<Rightarrow> cached_datasource \<Rightarrow> obj" where
  "merged_options cfg ds =
     extend_obj (cfg_caching cfg) (entries (js_or (cd_caching ds) (JObj [])))"

definition directory_on :: "(json \<Rightarrow> bool) \<Rightarrow> obj \<Rightarrow> bool" where
  "directory_on isBlank options \<longleftrightarrow>
     truthy (field options ''directory'')
     \<and> \<not> isBlank (case get_prop (field options ''directory'') ''path'' of
                     Inl x \<Rightarrow> JUndefined | Inr p \<Rightarrow> p)
     \<and> truthy (case get_prop (field options ''directory'') ''enabled'' of
                 Inl x \<Rightarrow> JUndefined | Inr v \<Rightarrow> v)"

definition redis_on :: "obj \<Rightarrow> bool" where
  "redis_on options \<longleftrightarrow>
     truthy (case get_prop (field options ''redis'') ''enabled'' of
               Inl x \<Rightarrow> JUndefined | Inr v \<Rightarrow> v)"

definition query_disables :: "(string \<Rightarrow> obj) \<Rightarrow> cached_datasource \<Rightarrow> bool" where
  "query_disables parse_query ds \<longleftrightarrow>
     (case cd_endpoint ds of
        None \<Rightarrow> False
      | Some endpoint \<Rightarrow> field (parse_query endpoint) ''cache'' = JStr ''false'')"

text \<open>
  A configuration with the directory store on, a datasource with an endpoint, and one
  whose provider builds no endpoint.
\<close>

definition example_config :: config where
  "example_config =
     \<lparr> cfg_caching = [(''ttl'', JNum 300),
                       (''directory'', JObj [(''enabled'', JBool True),
                                             (''path'', JStr ''./cache/web'')]),
                       (''redis'', JObj [(''enabled'', JBool False)])],
       cfg_directory_path = JStr ''./cache/web'',
       cfg_debug = JBool False \<rparr>"

definition example_cached :: "json \<Rightarrow> cached_datasource" where
  "example_cached caching =
     \<lparr> cd_endpoint = Some ''http://127.0.0.1:3000/1.0/cars/makes'',
       cd_source_type = ''dadiapi'',
       cd_caching = caching \<rparr>"

definition example_local :: cached_datasource where
  "example_local =
     \<lparr> cd_endpoint = None, cd_source_type = ''markdown'', cd_caching = JUndefined \<rparr>"

section \<open>\<open>Datasource.processRequest\<close> (datasource/index.js)\<close>

subsection \<open>Filter objects in a store\<close>

text \<open>
  A filter is an object that several names can hold at once: \<open>this.originalFilter\<close>,
  \<open>this.schema.datasource.filter\<close> and \<open>datasourceParams.filter\<close>. The filters live in a
  store, and those three are addresses. Writing through one name is seen through every
  other name that holds the same address.
\<close>

type_synonym addr = nat

record store =
  st_objs :: "addr \<Rightarrow> obj option"
  st_next :: addr

definition read_obj :: "store \<Rightarrow> addr \<Rightarrow> obj" where
  "read_obj s a = (case st_objs s a of None \<Rightarrow> [] | Some kvs \<Rightarrow> kvs)"

definition write_obj :: "store \<Rightarrow> addr \<Rightarrow> obj \<Rightarrow> store" where
  "write_obj s a kvs = s\<lparr> st_objs := (st_objs s)(a \<mapsto> kvs) \<rparr>"

text \<open>A new object: the next free address.\<close>

definition alloc :: "store \<Rightarrow> obj \<Rightarrow> addr \<times> store" where
  "alloc s kvs = (st_next s, \<lparr> st_objs = (st_objs s)(st_next s \<mapsto> kvs), st_next = Suc (st_next s) \<rparr>)"

definition delete_prop :: "obj \<Rightarrow> string \<Rightarrow> obj" where
  "delete_prop kvs k = filter (\<lambda>(k', v). k' \<noteq> k) kvs"

subsection \<open>The datasource and the request\<close>

text \<open>An entry of \<open>requestParams\<close>; a property that the schema leaves out is \<open>None\<close>.\<close>

record requestParam =
  rp_param :: "string option"
  rp_field :: "string option"
  rp_target :: "string option"
  rp_type :: "string option"
  rp_queryParam :: "string option"

text \<open>\<open>schema.datasource\<close>, as far as \<open>processRequest\<close> reads it.\<close>

record schema_datasource =
  sd_cache :: json
  sd_paginate :: json
  sd_page :: json
  sd_filter :: addr
  sd_filterEventResult :: json
  sd_endpoint :: string

datatype provider_kind =
    No_processRequest          \<comment> \<open>the provider has no \<open>processRequest\<close>\<close>
  | Takes_params               \<comment> \<open>it is given \<open>datasourceParams\<close>\<close>
  | Takes_request              \<comment> \<open>\<open>processSchemaParams === false\<close>: it is given \<open>req\<close>\<close>

text \<open>The datasource object that the controller keeps for all requests.\<close>

record Datasource =
  page_name :: string
  page_passFilters :: bool
  page_passHeaders :: bool
  schema :: schema_datasource
  originalFilter :: addr
  requestParams :: "requestParam list"
  modifiedEndpoint :: json
  requestHeaders :: json
  provider :: provider_kind

record request =
  rq_query :: obj
  rq_params :: obj
  rq_headers :: json

text \<open>
  The platform: \<open>JSON.parse\<close>; the resolution of the \<open>{params.NAME}\<close> placeholders, which
  is \<open>JSON.parse(JSON.stringify(filter).replace(paramRule, ...))\<close> and gives a new
  object or throws; \<open>Number\<close>; \<open>encodeURIComponent\<close>; and the replacement of \<open>{field}\<close>
  in the endpoint by a regular expression.
\<close>

record platform =
  lib_parse :: "json \<Rightarrow> exn + json"
  lib_resolve :: "obj \<Rightarrow> obj \<Rightarrow> exn + obj"
  lib_Number :: "json \<Rightarrow> json"
  lib_encode :: "json \<Rightarrow> string"
  lib_replace :: "string \<Rightarrow> json \<Rightarrow> string \<Rightarrow> string"

text \<open>What the provider is handed at the end.\<close>

datatype provider_call =
    Not_called
  | Called_with_params schema_datasource
  | Called_with_request

subsection \<open>The steps of \<open>processRequest\<close>\<close>

text \<open>\<open>s && s.length\<close> on an optional string: it is there and not empty.\<close>

definition present :: "string option \<Rightarrow> bool" where
  "present s = (case s of None \<Rightarrow> False | Some x \<Rightarrow> x \<noteq> [])"

text \<open>The name under which an optional string indexes an object: \<open>o[undefined]\<close> reads
  the property \<open>undefined\<close>.\<close>

definition key_of :: "string option \<Rightarrow> string" where
  "key_of s = (case s of None \<Rightarrow> ''undefined'' | Some x \<Rightarrow> x)"

text \<open>
  \<open>this.requestParams.find(obj => obj.queryParam === 'page' && obj.param)\<close>: the entry
  itself, not its \<open>param\<close>.
\<close>

definition requestParamsPage :: "requestParam list \<Rightarrow> requestParam option" where
  "requestParamsPage rps =
     find (\<lambda>obj. rp_queryParam obj = Some ''page'' \<and> present (rp_param obj)) rps"

text \<open>
  \<open>query.page || (requestParamsPage && req.params[requestParamsPage]) || req.params.page
  || 1\<close>. The index in the second operand is the entry found above, an object; as a
  property name an object is the string \<open>[object Object]\<close>.
\<close>

definition resolve_page :: "requestParam list \<Rightarrow> obj \<Rightarrow> obj \<Rightarrow> json" where
  "resolve_page rps query params =
     js_or (field query ''page'')
       (js_or (case requestParamsPage rps of
                 None \<Rightarrow> JUndefined
               | Some obj \<Rightarrow> field params ''[object Object]'')
          (js_or (field params ''page'') (JNum 1)))"

text \<open>
  The branch taken when the datasource's key contains the page's name or the page passes
  filters: the page value, the \<open>id\<close> that is dropped from the query, and the \<open>filter\<close> of
  the query string, merged into the object that \<open>datasourceParams.filter\<close> holds.
\<close>

definition apply_query ::
  "platform \<Rightarrow> requestParam list \<Rightarrow> request \<Rightarrow> schema_datasource \<Rightarrow> store
     \<Rightarrow> exn + schema_datasource \<times> store" where
  "apply_query L rps req P s =
     (let P1 = (if truthy (sd_paginate P)
                then P\<lparr> sd_page := resolve_page rps (rq_query req) (rq_params req) \<rparr>
                else P);
          query = (if truthy (field (rq_params req) ''id'') \<or> truthy (field (rq_query req) ''id'')
                   then delete_prop (rq_query req) ''id'' else rq_query req)
      in case map_of query ''filter'' of
           None \<Rightarrow> Inr (P1, s)
         | Some f \<Rightarrow>
             (case lib_parse L f of
                Inl x \<Rightarrow> Inl x
              | Inr v \<Rightarrow>
                  Inr (P1, write_obj s (sd_filter P1)
                             (extend_obj (read_obj s (sd_filter P1)) (entries v)))))"

text \<open>
  One entry of \<open>requestParams\<close>: the entry with its \<open>target\<close> filled in, the store and the
  endpoint afterwards. \<open>a\<close> is the address in \<open>datasourceParams.filter\<close>.
\<close>

definition apply_requestParam ::
  "platform \<Rightarrow> obj \<Rightarrow> addr \<Rightarrow> requestParam \<Rightarrow> store \<times> string
     \<Rightarrow> requestParam \<times> store \<times> string" where
  "apply_requestParam L params a obj se =
     (let s = fst se; endpoint = snd se;
          obj1 = (if present (rp_target obj) then obj else obj\<lparr> rp_target := Some ''filter'' \<rparr>);
          paramValue = (if map_of params (key_of (rp_param obj1)) \<noteq> None
                        then field params (key_of (rp_param obj1)) else JBool False)
      in if present (rp_field obj1) \<and> truthy paramValue then
           (let v = (if rp_type obj1 = Some ''Number'' then lib_Number L paramValue
                     else JStr (lib_encode L paramValue))
            in if rp_target obj1 = Some ''filter'' then
                 (obj1, write_obj s a (set_prop (read_obj s a) (key_of (rp_field obj1)) v),
                  endpoint)
               else if rp_target obj1 = Some ''endpoint'' then
                 (obj1, s, lib_replace L (key_of (rp_field obj1)) v endpoint)
               else (obj1, s, endpoint))
         else if rp_target obj1 = Some ''filter''
                 \<and> truthy (field (read_obj s a) (key_of (rp_field obj1)))
         then (obj1, write_obj s a (delete_prop (read_obj s a) (key_of (rp_field obj1))), endpoint)
         else (obj1, s, endpoint))"

fun apply_requestParams ::
  "platform \<Rightarrow> obj \<Rightarrow> addr \<Rightarrow> requestParam list \<Rightarrow> store \<times> string
     \<Rightarrow> requestParam list \<times> store \<times> string" where
  "apply_requestParams L params a [] se = ([], se)"
| "apply_requestParams L params a (obj # rest) se =
     (case apply_requestParam L params a obj se of
        (obj1, se1) \<Rightarrow>
          (case apply_requestParams L params a rest se1 of
             (rest1, se2) \<Rightarrow> (obj1 # rest1, se2)))"

subsection \<open>\<open>processRequest\<close>\<close>

text \<open>
  The result is the datasource and the store as the call leaves them, and what the
  provider was handed; or the exception thrown by \<open>JSON.parse\<close>.
\<close>

definition processRequest ::
  "platform \<Rightarrow> Datasource \<Rightarrow> string \<Rightarrow> request \<Rightarrow> store
     \<Rightarrow> exn + Datasource \<times> store \<times> provider_call" where
  "processRequest L this datasource req s =
     (let P0 = (schema this)\<lparr> sd_filter := originalFilter this \<rparr>;
          P1 = (if truthy (field (rq_query req) ''cache'')
                   \<and> field (rq_query req) ''cache'' = JStr ''false''
                then P0\<lparr> sd_cache := JBool False \<rparr>
                else P0\<lparr> sd_cache := JUndefined \<rparr>);
          this1 = (if page_passHeaders this then this\<lparr> requestHeaders := rq_headers req \<rparr>
                   else this)
      in case (if (page_name this \<noteq> [] \<and> indexOf datasource (page_name this) \<ge> 0)
                  \<or> page_passFilters this
               then apply_query L (requestParams this) req P1 s
               else Inr (P1, s)) of
           Inl x \<Rightarrow> Inl x
         | Inr (P2, s2) \<Rightarrow>
             (case lib_resolve L (rq_params req) (read_obj s2 (sd_filter P2)) of
                Inl x \<Rightarrow> Inl x
              | Inr resolved \<Rightarrow>
                  (case alloc s2 resolved of
                     (a, s3) \<Rightarrow>
                       (case apply_requestParams L (rq_params req) a (requestParams this)
                               (s3, sd_endpoint (schema this)) of
                          (rps, s4, endpoint) \<Rightarrow>
                            (let s5 = (if truthy (sd_filterEventResult (schema this))
                                       then write_obj s4 a
                                              (extend_obj (read_obj s4 a)
                                                 (entries (sd_filterEventResult (schema this))))
                                       else s4);
                                 P3 = P2\<lparr> sd_filter := a \<rparr>;
                                 this2 = this1\<lparr> requestParams := rps,
                                                modifiedEndpoint := JStr endpoint \<rparr>
                             in Inr (this2, s5,
                                     (case provider this of
                                        No_processRequest \<Rightarrow> Not_called
                                      | Takes_params \<Rightarrow> Called_with_params P3
                                      | Takes_request \<Rightarrow> Called_with_request)))))))"

text \<open>\<open>datasourceParams\<close>, when the provider was handed it.\<close>

fun params_of :: "exn + Datasource \<times> store \<times> provider_call \<Rightarrow> schema_datasource option" where
  "params_of (Inr (this, s, Called_with_params P)) = Some P"
| "params_of _ = None"

subsection \<open>A datasource for the concrete instances\<close>

text \<open>
  The \<open>cars\<close> datasource of a page that passes filters: paginated, with an empty filter
  (the schema's at address 0, the pristine copy made by \<open>init\<close> at address 1), and one
  entry of \<open>requestParams\<close> that names the route parameter \<open>p\<close> as the page. The filter in
  the query string is \<open>{"a":1}\<close>, which has no placeholder: \<open>JSON.parse\<close> gives the object,
  and resolving placeholders gives a copy.
\<close>

definition example_store :: store where
  "example_store = \<lparr> st_objs = [0 \<mapsto> [], 1 \<mapsto> []], st_next = 2 \<rparr>"

definition example_Datasource :: Datasource where
  "example_Datasource =
     \<lparr> page_name = ''cars'', page_passFilters = True, page_passHeaders = False,
       schema = \<lparr> sd_cache = JUndefined, sd_paginate = JBool True, sd_page = JUndefined,
                  sd_filter = 0, sd_filterEventResult = JUndefined,
                  sd_endpoint = ''http://127.0.0.1:3000/1.0/cars/cars'' \<rparr>,
       originalFilter = 1,
       requestParams = [\<lparr> rp_param = Some ''p'', rp_field = None, rp_target = None,
                           rp_type = None, rp_queryParam = Some ''page'' \<rparr>],
       modifiedEndpoint = JUndefined, requestHeaders = JUndefined,
       provider = Takes_params \<rparr>"

definition example_platform :: platform where
  "example_platform =
     \<lparr> lib_parse = (\<lambda>v. if v = JStr ''{\"a\":1}'' then Inr (JObj [(''a'', JNum 1)])
                          else Inl SyntaxError),
       lib_resolve = (\<lambda>params filter. Inr filter),
       lib_Number = (\<lambda>v. v),
       lib_encode = (\<lambda>v. case v of JStr s \<Rightarrow> s | _ \<Rightarrow> []),
       lib_replace = (\<lambda>field v endpoint. endpoint) \<rparr>"


section \<open>Properties of the router\<close>

lemma sort_paths_sorted: "sorted (map (\<lambda>r. - order r) (sort_paths rs))"
  by (simp add: sort_paths_def)

lemma sort_paths_set: "set (sort_paths rs) = set rs"
  by (simp add: sort_paths_def)

lemma filter_sort_paths: "filter P (sort_paths rs) = sort_paths (filter P rs)"
  by (simp add: sort_paths_def filter_sort)

lemma sort_paths_id: "sorted (map (\<lambda>r. - order r) rs) \<Longrightarrow> sort_paths rs = rs"
  by (simp add: sort_paths_def sort_key_id_if_sorted)

lemma sorted_filter_key:
  "sorted (map f xs) \<Longrightarrow> sorted (map f (filter P xs))"
  by (induction xs) auto

lemma remove_first_keeps_head:
  "f \<noteq> x \<Longrightarrow> remove_first f (x # xs) = x # remove_first f xs"
  by simp

lemma api_inv_Api: "api_inv Api"
  by (simp add: api_inv_def Api_def)

lemma api_inv_use: "api_inv a \<Longrightarrow> api_inv (use parse arg h a)"
proof (cases arg)
  case (Function f)
  assume "api_inv a"
  with Function show ?thesis
    by (auto simp: api_inv_def use_def)
next
  case (Path p)
  assume inv: "api_inv a"
  have "\<forall>r \<in> set (paths a). rid r < Suc (next_rid a)"
    using inv by (auto simp: api_inv_def)
  with inv Path show ?thesis
    by (simp add: api_inv_def use_def sort_paths_sorted sort_paths_set)
qed

lemma api_inv_unuse: "api_inv a \<Longrightarrow> api_inv (unuse arg a)"
proof (cases arg)
  case (Function f)
  assume inv: "api_inv a"
  then obtain rest where e: "errors a = DefaultError # rest"
    by (auto simp: api_inv_def)
  show ?thesis
  proof (cases "fn_length f = 4")
    case True
    then have "f \<noteq> DefaultError" by auto
    with inv e Function True show ?thesis
      by (auto simp: api_inv_def unuse_def)
  next
    case False
    with inv Function show ?thesis
      by (auto simp: api_inv_def unuse_def)
  qed
next
  case (Path p)
  assume inv: "api_inv a"
  then have s: "sorted (map (\<lambda>r. - order r) (paths a))"
    by (simp add: api_inv_def)
  have "sorted (map (\<lambda>r. - order r) (without (paths a) v))" for v
    using s by (cases v) (simp_all add: without_def sorted_filter_key)
  moreover have "set (without (paths a) v) \<subseteq> set (paths a)" for v
    by (cases v) (auto simp: without_def)
  ultimately show ?thesis
    using inv Path by (auto simp: api_inv_def unuse_def)
qed

lemma reachable_inv: "reachable parse a \<Longrightarrow> api_inv a"
  by (induction rule: reachable.induct) (simp_all add: api_inv_Api api_inv_use api_inv_unuse)

lemma find_unique:
  "x \<in> set rs \<Longrightarrow> P x \<Longrightarrow> \<forall>r \<in> set rs. r \<noteq> x \<longrightarrow> \<not> P r \<Longrightarrow> find P rs = Some x"
  by (induction rs) auto

text \<open>What \<open>use\<close> computes and keeps, for the patterns where the \<open>/config\<close> test does not fire
  and for those where it does.\<close>

lemma route_order_formula:
  "indexOf p ''/config'' \<le> 0 \<Longrightarrow>
   route_order parse p =
     int (staticRouteLength (parse p)) * 5
     + int (requiredParamLength (keys_of (parse p))) * 2
     + int (optionalParamLength (keys_of (parse p)))"
  by (simp add: route_order_def Let_def)

lemma route_order_config:
  "indexOf p ''/config'' > 0 \<Longrightarrow> route_order parse p = - 10"
  by (simp add: route_order_def Let_def)

lemma use_paths_sorted:
  "sorted (map (\<lambda>r. - order r) (paths (use parse (Path p) h a)))"
  by (simp add: use_def sort_paths_sorted)

lemma use_paths_stable:
  "filter (\<lambda>r. order r = k) (paths (use parse (Path p) h a)) =
   filter (\<lambda>r. order r = k)
     (paths a @ [\<lparr> rid = next_rid a, path = p, order = route_order parse p,
                   handler = h, regex = keys_of (parse p) \<rparr>])"
proof -
  have "filter (\<lambda>r. - order r = - k) (sort_key (\<lambda>r. - order r) xs) =
        filter (\<lambda>r. - order r = - k) xs" for xs :: "route list"
    by (rule sort_key_stable)
  then show ?thesis
    by (simp add: use_def sort_paths_def)
qed

section \<open>Claims about the router\<close>

lemmas router_eval =
  use_def unuse_def Api_def sort_paths_def route_order_def parse_static_def
  staticRouteLength_def compact_def indexOf_def requiredParamLength_def
  optionalParamLength_def without_def findWhere_path_def

text \<open>
  C2. The score of a pattern is \<open>staticSegments * 5 + requiredParams * 2 + optionalParams\<close>,
  and a pattern containing \<open>/config\<close> is forced to \<open>-10\<close> so that it sorts after every
  other pattern. The test in \<open>use\<close> is \<open>path.indexOf('/config') > 0\<close>, which misses a
  pattern that starts with \<open>/config\<close>: the pattern \<open>/config\<close> keeps its computed score 5,
  and \<open>/config/a\<close>, registered after \<open>/x\<close>, is sorted before it. (The lemmas
  \<open>route_order_formula\<close>, \<open>route_order_config\<close>, \<open>use_paths_sorted\<close> and
  \<open>use_paths_stable\<close> above give the parts of the sentence that hold.)
\<close>

theorem use_config_prefix_not_forced:
  "route_order parse_static ''/config'' = 5 \<and>
   map path (paths (use parse_static (Path ''/config/a'') (Fn 2 3)
                     (use parse_static (Path ''/x'') (Fn 1 3) Api)))
     = [''/config/a'', ''/x'']"
  by (simp add: router_eval)

text \<open>
  C3, as stated: registering a path and handler and then unregistering the same path
  restores the route list. It fails when the list already holds a route with that path:
  \<open>unuse\<close> looks the route up by path alone and removes the first one it finds, which is
  the older route. With \<open>/a\<close> and \<open>/b\<close> registered, registering \<open>/a\<close> once more with the
  same handler and unregistering it leaves \<open>/b\<close> before \<open>/a\<close>.
\<close>

theorem use_unuse_same_path_counterexample:
  "map path (paths (use parse_static (Path ''/b'') (Fn 2 3)
                     (use parse_static (Path ''/a'') (Fn 1 3) Api)))
     = [''/a'', ''/b''] \<and>
   map path (paths (unuse (Path ''/a'')
                     (use parse_static (Path ''/a'') (Fn 1 3)
                        (use parse_static (Path ''/b'') (Fn 2 3)
                           (use parse_static (Path ''/a'') (Fn 1 3) Api)))))
     = [''/b'', ''/a'']"
  by (simp add: router_eval)

text \<open>
  C3, amended: in every state of the router in which no route with path \<open>p\<close> is
  registered, \<open>use\<close> of \<open>p\<close> with any handler followed by \<open>unuse\<close> of \<open>p\<close> leaves the
  route list exactly as it was, contents and order.
\<close>

theorem use_unuse_restores:
  assumes reach: "reachable parse a" and fresh: "\<forall>r \<in> set (paths a). path r \<noteq> p"
  shows "paths (unuse (Path p) (use parse (Path p) h a)) = paths a"
proof -
  let ?r = "\<lparr> rid = next_rid a, path = p, order = route_order parse p,
              handler = h, regex = keys_of (parse p) \<rparr>"
  let ?rs = "sort_paths (paths a @ [?r])"
  have inv: "api_inv a" using reach by (rule reachable_inv)
  have mem: "?r \<in> set ?rs" by (simp add: sort_paths_set)
  have others: "\<forall>r \<in> set ?rs. r \<noteq> ?r \<longrightarrow> \<not> (path r = p)"
    using fresh by (auto simp: sort_paths_set)
  have f: "findWhere_path ?rs p = Some ?r"
    unfolding findWhere_path_def
    by (rule find_unique[OF mem _ others]) simp
  have "filter (\<lambda>x. rid x \<noteq> next_rid a) ?rs =
        sort_paths (filter (\<lambda>x. rid x \<noteq> next_rid a) (paths a @ [?r]))"
    by (rule filter_sort_paths)
  also have "filter (\<lambda>x. rid x \<noteq> next_rid a) (paths a @ [?r]) = paths a"
    using inv by (auto simp: api_inv_def filter_id_conv)
  also have "sort_paths (paths a) = paths a"
    using inv by (simp add: api_inv_def sort_paths_id)
  finally show ?thesis
    by (simp add: unuse_def use_def f without_def)
qed

theorem use_unuse_restores_witness:
  "reachable parse_static (use parse_static (Path ''/b'') (Fn 1 3) Api) \<and>
   map path (paths (use parse_static (Path ''/b'') (Fn 1 3) Api)) = [''/b''] \<and>
   paths (unuse (Path ''/a'')
            (use parse_static (Path ''/a'') (Fn 2 3)
               (use parse_static (Path ''/b'') (Fn 1 3) Api)))
   = paths (use parse_static (Path ''/b'') (Fn 1 3) Api)"
proof -
  have r: "reachable parse_static (use parse_static (Path ''/b'') (Fn 1 3) Api)"
    by (intro reachable.intros)
  have f: "\<forall>r \<in> set (paths (use parse_static (Path ''/b'') (Fn 1 3) Api)). path r \<noteq> ''/a''"
    by (simp add: router_eval)
  have m: "map path (paths (use parse_static (Path ''/b'') (Fn 1 3) Api)) = [''/b'']"
    by (simp add: router_eval)
  show ?thesis
    using r m use_unuse_restores [OF r f, of "Fn 2 3"] by blast
qed

text \<open>
  C7. In every state of the router the error chain starts with the default handler put
  there by the constructor (\<open>unuse\<close> never removes it: it declares three parameters, and
  only a four-parameter function is looked up in \<open>errors\<close>), so an error that enters the
  chain is handled by it. The handler logs the error, sets the status to the error's
  \<open>statusCode\<close> when it has one and to 500 otherwise, and ends the response with the
  serialised \<open>json\<close> payload when the error carries one and with an empty body
  otherwise. To have a status or a payload is, as everywhere in JavaScript, to have a
  truthy one: \<open>err.statusCode || 500\<close>, \<open>if (err.json)\<close>.
\<close>

theorem default_error_handler:
  assumes "reachable parse a"
  shows "errors a \<noteq> [] \<and> hd (errors a) = DefaultError \<and>
         errStack S B user (errors a) e res = Inr (snd (defaultError S B e res)) \<and>
         fst (defaultError S B e res) = [e] \<and>
         statusCode (snd (defaultError S B e res)) =
           (if truthy (err_statusCode e) then err_statusCode e else JNum 500) \<and>
         ended (snd (defaultError S B e res)) =
           Some (if truthy (err_json e) then S (err_json e) else []) \<and>
         (truthy (err_json e) \<longrightarrow>
            headers (snd (defaultError S B e res)) ''content-type''
              = Some (HStr ''application/json'') \<and>
            headers (snd (defaultError S B e res)) ''content-length''
              = Some (HNum (B (S (err_json e)))))"
proof -
  from assms have "api_inv a" by (rule reachable_inv)
  then obtain rest where "errors a = DefaultError # rest"
    by (auto simp: api_inv_def)
  then show ?thesis
    by (auto simp: defaultError_def js_or_def Let_def)
qed

theorem default_error_handler_witness:
  "reachable parse_static (unuse (Function (Fn 9 4)) (use parse_static (Function (Fn 9 4)) (Fn 0 0) Api)) \<and>
   errStack (\<lambda>j. ''{}'') length (\<lambda>i e r. (r, None))
      (errors (unuse (Function (Fn 9 4)) (use parse_static (Function (Fn 9 4)) (Fn 0 0) Api)))
      \<lparr> err_message = ''gone'', err_statusCode = JNum 404, err_json = JObj [(''error'', JStr ''gone'')] \<rparr>
      \<lparr> statusCode = JNum 200, headers = Map.empty, ended = None \<rparr>
   = Inr (snd (defaultError (\<lambda>j. ''{}'') length
      \<lparr> err_message = ''gone'', err_statusCode = JNum 404, err_json = JObj [(''error'', JStr ''gone'')] \<rparr>
      \<lparr> statusCode = JNum 200, headers = Map.empty, ended = None \<rparr>)) \<and>
   statusCode (snd (defaultError (\<lambda>j. ''{}'') length
      \<lparr> err_message = ''gone'', err_statusCode = JNum 404, err_json = JObj [(''error'', JStr ''gone'')] \<rparr>
      \<lparr> statusCode = JNum 200, headers = Map.empty, ended = None \<rparr>)) = JNum 404 \<and>
   ended (snd (defaultError (\<lambda>j. ''{}'') length
      \<lparr> err_message = ''gone'', err_statusCode = JNum 404, err_json = JObj [(''error'', JStr ''gone'')] \<rparr>
      \<lparr> statusCode = JNum 200, headers = Map.empty, ended = None \<rparr>)) = Some ''{}'' \<and>
   statusCode (snd (defaultError (\<lambda>j. ''{}'') length
      \<lparr> err_message = ''boom'', err_statusCode = JUndefined, err_json = JUndefined \<rparr>
      \<lparr> statusCode = JNum 200, headers = Map.empty, ended = None \<rparr>)) = JNum 500 \<and>
   ended (snd (defaultError (\<lambda>j. ''{}'') length
      \<lparr> err_message = ''boom'', err_statusCode = JUndefined, err_json = JUndefined \<rparr>
      \<lparr> statusCode = JNum 200, headers = Map.empty, ended = None \<rparr>)) = Some []"
proof -
  let ?a = "unuse (Function (Fn 9 4)) (use parse_static (Function (Fn 9 4)) (Fn 0 0) Api)"
  have r: "reachable parse_static ?a"
    by (intro reachable.intros)
  show ?thesis
    using r
      default_error_handler [OF r, of "\<lambda>j. ''{}''" length "\<lambda>i e r. (r, None)"
        "\<lparr> err_message = ''gone'', err_statusCode = JNum 404, err_json = JObj [(''error'', JStr ''gone'')] \<rparr>"
        "\<lparr> statusCode = JNum 200, headers = Map.empty, ended = None \<rparr>"]
      default_error_handler [OF r, of "\<lambda>j. ''{}''" length "\<lambda>i e r. (r, None)"
        "\<lparr> err_message = ''boom'', err_statusCode = JUndefined, err_json = JUndefined \<rparr>"
        "\<lparr> statusCode = JNum 200, headers = Map.empty, ended = None \<rparr>"]
    by simp
qed


section \<open>Properties of the controller\<close>

subsection \<open>The gate\<close>

lemma find_dec_results: "find (\<lambda>i. dec i = ''results'') [0..<n] = None"
proof -
  have "dec i \<noteq> ''results''" for i
  proof (induction i rule: dec.induct)
    case (1 n)
    show ?case
    proof (cases "n < 10")
      case True
      then have "length (dec n) = 1" by (simp add: dec.simps)
      then show ?thesis by auto
    next
      case False
      have d: "(''0123456789'' ! (n mod 10)) \<in> set ''0123456789''"
        by (rule nth_mem) simp
      have "last (dec n) = ''0123456789'' ! (n mod 10)"
        using False by (subst dec.simps) simp
      moreover have "last ''results'' = CHR ''s''" by simp
      ultimately show ?thesis using d by auto
    qed
  qed
  then show ?thesis by (simp add: find_None_iff)
qed

lemma required_present_typed:
  assumes "map_of kvs ''hasOwnProperty'' = None"
    and "\<And>v. map_of kvs k = Some v \<Longrightarrow> entry_ok v"
  shows "required_present (JObj kvs) k = Inr (has_results kvs k)"
proof (cases "map_of kvs k")
  case None
  then show ?thesis using assms(1) by (simp add: required_present_def has_results_def)
next
  case (Some v)
  with assms have ok: "entry_ok v" by simp
  show ?thesis
  proof (cases v)
    case (JObj d)
    with ok have pl: "map_of d ''hasOwnProperty'' = None" by simp
    show ?thesis
    proof (cases "map_of d ''results''")
      case None
      with Some JObj pl assms(1) show ?thesis
        by (simp add: required_present_def has_results_def)
    next
      case (Some r)
      with ok JObj obtain xs where "r = JArr xs" by (cases r) auto
      with Some \<open>map_of kvs k = Some v\<close> JObj pl assms(1) show ?thesis
        by (simp add: required_present_def has_results_def)
    qed
  qed (use Some ok assms(1) in
        \<open>simp_all add: required_present_def has_results_def find_dec_results\<close>)
qed

lemma every_required_typed:
  assumes "map_of kvs ''hasOwnProperty'' = None"
    and "\<forall>k \<in> set ks. \<forall>v. map_of kvs k = Some v \<longrightarrow> entry_ok v"
  shows "every_required (JObj kvs) ks = Inr (\<forall>k \<in> set ks. has_results kvs k)"
  using assms(2)
proof (induction ks)
  case Nil
  then show ?case by simp
next
  case (Cons k ks)
  then have "required_present (JObj kvs) k = Inr (has_results kvs k)"
    by (intro required_present_typed assms(1)) simp
  with Cons show ?case by (cases "has_results kvs k") simp_all
qed

text \<open>
  The callback looks at the data before it looks at the error. When the load has failed,
  \<open>done(err)\<close> passes no data: on a page without required datasources the error goes to
  the error chain, or to the not-found continuation when its status is 404; on a page
  with required datasources \<open>data.hasOwnProperty\<close> throws.
\<close>

lemma process_cb_error:
  "process_cb [] render st (Some er) JUndefined JUndefined =
     (if err_statusCode er = JNum 404 then Next else NextErr er)"
  by (auto simp: process_cb_def requiredDataPresent_def Send_def)

lemma process_cb_error_required:
  "required \<noteq> [] \<Longrightarrow>
     process_cb required render st (Some er) JUndefined JUndefined = Throws TypeError"
  by (cases required) (simp_all add: process_cb_def requiredDataPresent_def required_present_def)

text \<open>On a page without required datasources, a load that ends with the data object
  sends it (JSON view) or renders it.\<close>

lemma process_cb_data:
  "process_cb [] render st None (JObj d) JUndefined =
     (if truthy (case map_of d ''json'' of None \<Rightarrow> JUndefined | Some j \<Rightarrow> j)
      then Sent (js_or st (JNum 200)) (JObj d)
      else (case render (JObj d) of
              Inl er \<Rightarrow> NextErr er
            | Inr page \<Rightarrow> Sent (js_or st (JNum 200)) page))"
  by (auto simp: process_cb_def requiredDataPresent_def Send_def Let_def split: sum.splits)

subsection \<open>Lists of steps\<close>

lemma append_Cons_split:
  "xs @ a # ys = p @ q \<Longrightarrow> a \<notin> set p \<Longrightarrow> \<exists>zs. q = zs @ a # ys \<and> xs = p @ zs"
proof (induction p arbitrary: xs)
  case Nil
  then show ?case by simp
next
  case (Cons b p)
  then obtain xs' where xs: "xs = b # xs'" by (cases xs) auto
  with Cons.prems have "xs' @ a # ys = p @ q" "a \<notin> set p" by auto
  from Cons.IH[OF this] xs show ?case by auto
qed

lemma split_at_last_but_one:
  assumes "xs @ a # ys = p @ [b, c]" and "a \<notin> set p" and "a \<noteq> c"
  shows "a = b \<and> ys = [c]"
proof -
  from append_Cons_split[OF assms(1,2)] obtain zs where z: "[b, c] = zs @ a # ys" by auto
  show ?thesis
  proof (cases zs)
    case Nil
    with z show ?thesis by simp
  next
    case (Cons z1 zs1)
    with z assms(3) show ?thesis by (cases zs1) auto
  qed
qed

subsection \<open>The events of a stage\<close>

text \<open>\<open>event_stage\<close> calls back as \<open>loadEventData\<close> does.\<close>

lemma event_stage_loadEventData:
  "snd (snd (event_stage M clock i evs own cur attached)) = snd (loadEventData M clock i evs cur)"
proof (induction evs arbitrary: i own cur attached)
  case Nil
  then show ?case by simp
next
  case (Cons ev evs)
  obtain lg d e result where r:
    "Event_run M ev (set_prop cur ''checkValue'' (JStr (clock i))) = (lg, d, e, result)"
    by (cases "Event_run M ev (set_prop cur ''checkValue'' (JStr (clock i)))") auto
  show ?case
  proof (cases "event_cb (clock i) (ev_name ev) d e result")
    case (Inl er)
    with r show ?thesis by simp
  next
    case (Inr d')
    show ?thesis
      by (simp add: r Inr Let_def split_beta Cons.IH)
  qed
qed

lemma logs_of_Logged:
  "concat (map ((\<lambda>s. case s of Logged l \<Rightarrow> [l] | _ \<Rightarrow> []) \<circ> Logged) xs) = xs"
  by (induction xs) simp_all

lemma event_stage_log:
  "concat (map (\<lambda>s. case s of Logged l \<Rightarrow> [l] | _ \<Rightarrow> [])
             (fst (event_stage M clock i evs own cur attached)))
     = fst (loadEventData M clock i evs cur)"
proof (induction evs arbitrary: i own cur attached)
  case Nil
  then show ?case by simp
next
  case (Cons ev evs)
  obtain lg d e result where r:
    "Event_run M ev (set_prop cur ''checkValue'' (JStr (clock i))) = (lg, d, e, result)"
    by (cases "Event_run M ev (set_prop cur ''checkValue'' (JStr (clock i)))") auto
  note lg = logs_of_Logged[of lg]
  show ?case
  proof (cases "event_cb (clock i) (ev_name ev) d e result")
    case (Inl er)
    with r lg show ?thesis by simp
  next
    case (Inr d')
    show ?thesis
      by (simp add: r Inr Let_def split_beta Cons.IH lg)
  qed
qed

lemma event_stage_steps:
  "s \<in> set (fst (event_stage M clock i evs own cur attached)) \<Longrightarrow>
     (\<exists>n. s = Ran_event n) \<or> (\<exists>l. s = Logged l)"
proof (induction evs arbitrary: i own cur attached)
  case Nil
  then show ?case by simp
next
  case (Cons ev evs)
  obtain lg d e result where r:
    "Event_run M ev (set_prop cur ''checkValue'' (JStr (clock i))) = (lg, d, e, result)"
    by (cases "Event_run M ev (set_prop cur ''checkValue'' (JStr (clock i)))") auto
  show ?case
  proof (cases "event_cb (clock i) (ev_name ev) d e result")
    case (Inl er)
    with r Cons.prems show ?thesis by auto
  next
    case (Inr d')
    define attached' where
      "attached' = (if carries_checkValue (clock i) result then attached \<and> d' = d else attached)"
    define own' where "own' = (if attached' then d' else if attached then d else own)"
    have "fst (event_stage M clock i (ev # evs) own cur attached) =
            Ran_event (ev_name ev) # map Logged lg
              @ fst (event_stage M clock (Suc i) evs own' d' attached')"
      unfolding attached'_def own'_def by (simp add: r Inr Let_def split_beta)
    with Cons.prems
    have "s = Ran_event (ev_name ev) \<or> s \<in> Logged ` set lg
            \<or> s \<in> set (fst (event_stage M clock (Suc i) evs own' d' attached'))"
      by auto
    then show ?thesis
      using Cons.IH[of "Suc i" own' d' attached'] by auto
  qed
qed

subsection \<open>The queue\<close>

lemma run_filterEvent_steps:
  "s \<in> set (fst (run_filterEvent E cb ds data)) \<Longrightarrow>
     (\<exists>n. s = Ran_event n) \<or> (\<exists>l. s = Logged l)
     \<or> (\<exists>er. s = call_done cb (Some er) JUndefined JUndefined)"
  by (auto simp: run_filterEvent_def split: option.splits prod.splits)

lemma run_filterEvent_no_fetch: "Fetched k e \<notin> set (fst (run_filterEvent E cb ds data))"
  using run_filterEvent_steps[of "Fetched k e" E cb ds data] by (auto simp: call_done_def)

lemma primary_queue_step:
  assumes "primary_queue E cb ((k, ds) # rest) data = (st, u, d, dr)"
  obtains
    (throws) "st = fst (run_filterEvent E cb ds data)" "\<not> dr"
  | (error) er where
      "st = fst (run_filterEvent E cb ds data)
              @ [Fetched k (Some er), call_done cb (Some er) JUndefined JUndefined]"
      "\<not> dr"
  | (raw) result dsResponse where
      "st = fst (run_filterEvent E cb ds data)
              @ [Fetched k None, call_done cb None result dsResponse]"
      "truthy dsResponse" "\<not> dr"
  | (continues) st' data' where
      "st = fst (run_filterEvent E cb ds data) @ Fetched k None # st'"
      "primary_queue E cb rest data' = (st', u, d, dr)"
proof -
  obtain st1 ds1 data1 where f: "run_filterEvent E cb ds data = (st1, ds1, data1)"
    by (cases "run_filterEvent E cb ds data") auto
  show thesis
  proof (cases "prepare E ds1")
    case (Some x)
    with assms f have "st = fst (run_filterEvent E cb ds data)" "\<not> dr" by auto
    then show thesis by (rule throws)
  next
    case None
    obtain e result dsResponse where l: "load E ds1 = (e, result, dsResponse)"
      by (cases "load E ds1") auto
    show thesis
    proof (cases e)
      case (Some er)
      with assms f None l
      have "st = fst (run_filterEvent E cb ds data)
              @ [Fetched k (Some er), call_done cb (Some er) JUndefined JUndefined]" "\<not> dr"
        by auto
      then show thesis by (rule error)
    next
      case n: None
      show thesis
      proof (cases "truthy dsResponse")
        case True
        with assms f None l n
        have "st = fst (run_filterEvent E cb ds data)
                @ [Fetched k None, call_done cb None result dsResponse]" "\<not> dr"
          by auto
        with True show thesis by (intro raw)
      next
        case False
        define data' where
          "data' = (if truthy result then set_prop data1 (ds_key ds1) result else data1)"
        obtain st' u' d' dr' where q: "primary_queue E cb rest data' = (st', u', d', dr')"
          by (cases "primary_queue E cb rest data'") auto
        with assms f None l n False
        have "st = fst (run_filterEvent E cb ds data) @ Fetched k None # st'"
          "u = u'" "d = d'" "dr = dr'"
          by (auto simp: data'_def)
        with q show thesis by (intro continues) auto
      qed
    qed
  qed
qed

lemma primary_queue_drained:
  "primary_queue E cb ps data = (st, u, d, True) \<Longrightarrow> Fetched k (Some er) \<notin> set st"
proof (induction ps arbitrary: data st)
  case Nil
  then show ?case by simp
next
  case (Cons p ps)
  obtain k' ds where p: "p = (k', ds)" by (cases p)
  from Cons.prems[unfolded p] show ?case
  proof (cases rule: primary_queue_step)
    case (continues st' data')
    with Cons.IH[OF continues(2)] show ?thesis
      by (simp add: run_filterEvent_no_fetch)
  qed simp_all
qed

lemma primary_queue_fetch_error:
  "primary_queue E cb ps data = (st, u, d, dr) \<Longrightarrow> st = xs @ Fetched k (Some er) # ys \<Longrightarrow>
     ys = [call_done cb (Some er) JUndefined JUndefined] \<and> \<not> dr"
proof (induction ps arbitrary: data st xs)
  case Nil
  then show ?case by simp
next
  case (Cons p ps)
  obtain k' ds where p: "p = (k', ds)" by (cases p)
  let ?st1 = "fst (run_filterEvent E cb ds data)"
  have nf: "Fetched k (Some er) \<notin> set ?st1" by (rule run_filterEvent_no_fetch)
  from Cons.prems(1)[unfolded p] show ?case
  proof (cases rule: primary_queue_step)
    case throws
    with Cons.prems(2) nf show ?thesis by (metis in_set_conv_decomp)
  next
    case (error er')
    with Cons.prems(2)
    have "xs @ Fetched k (Some er) # ys
            = ?st1 @ [Fetched k' (Some er'), call_done cb (Some er') JUndefined JUndefined]"
      by simp
    from split_at_last_but_one[OF this nf]
    have "Fetched k (Some er) = Fetched k' (Some er')
          \<and> ys = [call_done cb (Some er') JUndefined JUndefined]"
      by (simp add: call_done_def)
    with error show ?thesis by simp
  next
    case (raw result dsResponse)
    with Cons.prems(2)
    have "xs @ Fetched k (Some er) # ys
            = ?st1 @ [Fetched k' None, call_done cb None result dsResponse]"
      by simp
    from split_at_last_but_one[OF this nf] show ?thesis
      by (simp add: call_done_def)
  next
    case (continues st' data')
    with Cons.prems(2)
    have "xs @ Fetched k (Some er) # ys = ?st1 @ (Fetched k' None # st')" by simp
    from append_Cons_split[OF this nf] obtain zs where
      z: "Fetched k' None # st' = zs @ Fetched k (Some er) # ys" by auto
    then obtain zs' where "st' = zs' @ Fetched k (Some er) # ys"
      by (cases zs) auto
    from Cons.IH[OF continues(2) this] show ?thesis .
  qed
qed

text \<open>A call of \<open>done\<close> made by the queue carries an error or a raw response.\<close>

lemma primary_queue_calls:
  "primary_queue E cb ps data = (st, u, d, dr) \<Longrightarrow> Called_done e dd r out \<in> set st \<Longrightarrow>
     out = cb e dd r \<and> (e \<noteq> None \<or> truthy r)"
proof (induction ps arbitrary: data st)
  case Nil
  then show ?case by simp
next
  case (Cons p ps)
  obtain k' ds where p: "p = (k', ds)" by (cases p)
  let ?st1 = "fst (run_filterEvent E cb ds data)"
  have f: "Called_done e dd r out \<in> set ?st1 \<Longrightarrow> out = cb e dd r \<and> e \<noteq> None"
    using run_filterEvent_steps[of "Called_done e dd r out" E cb ds data]
    by (auto simp: call_done_def)
  from Cons.prems(1)[unfolded p] show ?case
  proof (cases rule: primary_queue_step)
    case throws
    with Cons.prems(2) f show ?thesis by simp
  next
    case (error er')
    with Cons.prems(2) f show ?thesis by (auto simp: call_done_def)
  next
    case (raw result dsResponse)
    with Cons.prems(2) f show ?thesis by (auto simp: call_done_def)
  next
    case (continues st' data')
    with Cons.prems(2) f Cons.IH[OF continues(2)] show ?thesis by auto
  qed
qed

subsection \<open>The chained loop\<close>

lemma done_calls_append [simp]: "done_calls (xs @ ys) = done_calls xs @ done_calls ys"
  by (simp add: done_calls_def)

lemma done_calls_Cons [simp]:
  "done_calls (s # xs) = (if is_done s then s # done_calls xs else done_calls xs)"
  by (simp add: done_calls_def)

lemma done_calls_Nil [simp]: "done_calls [] = []"
  by (simp add: done_calls_def)

lemma done_calls_Logged [simp]: "done_calls (map Logged lg) = []"
  by (induction lg) simp_all

lemma start_all_step:
  assumes "start_all E cb data ((k, ds) # rest) = (st, ts, started, u)"
  obtains
    (throws) lg er x where
      "start_chained E data ds = (lg, Skipped er)"
      "thrown (cb (Some er) JUndefined JUndefined) = Some x"
      "st = map Logged lg @ [call_done cb (Some er) JUndefined JUndefined]"
      "ts = (k, ds) # rest" "started = []" "u = Some x"
  | (skipped) lg er st' ts' where
      "start_chained E data ds = (lg, Skipped er)"
      "thrown (cb (Some er) JUndefined JUndefined) = None"
      "start_all E cb data rest = (st', ts', started, u)"
      "st = map Logged lg @ call_done cb (Some er) JUndefined JUndefined # st'"
      "ts = (k, ds) # ts'"
  | (started) lg ds' st' ts' started' where
      "start_chained E data ds = (lg, Started ds')"
      "start_all E cb data rest = (st', ts', started', u)"
      "st = map Logged lg @ Fetched_chained k (fst (load E ds')) # st'"
      "ts = (k, ds') # ts'" "started = (k, ds') # started'"
  | (uncaught) lg ds' x where
      "start_chained E data ds = (lg, Uncaught ds' x)"
      "st = map Logged lg" "ts = (k, ds') # rest" "started = []" "u = Some x"
proof -
  obtain lg stp where s: "start_chained E data ds = (lg, stp)"
    by (cases "start_chained E data ds")
  obtain st' ts' started' u' where r: "start_all E cb data rest = (st', ts', started', u')"
    by (cases "start_all E cb data rest") auto
  show thesis
  proof (cases stp)
    case (Skipped er)
    show thesis
    proof (cases "thrown (cb (Some er) JUndefined JUndefined)")
      case None
      with assms s r Skipped show thesis by (intro skipped[of lg er st' ts']) auto
    next
      case (Some x)
      with assms s Skipped show thesis by (intro throws[of lg er x]) auto
    qed
  next
    case (Started ds')
    with assms s r show thesis by (intro started[of lg ds' st' ts' started']) auto
  next
    case (Uncaught ds' x)
    with assms s show thesis by (intro uncaught[of lg ds' x]) auto
  qed
qed

lemma start_all_steps:
  "start_all E cb data cs = (st, ts, started, u) \<Longrightarrow> s \<in> set st \<Longrightarrow>
     (\<exists>l. s = Logged l) \<or> (\<exists>er. s = call_done cb (Some er) JUndefined JUndefined)
     \<or> (\<exists>k ds'. s = Fetched_chained k (fst (load E ds')) \<and> (k, ds') \<in> set started)"
proof (induction cs arbitrary: st ts started u)
  case Nil
  then show ?case by simp
next
  case (Cons c cs)
  obtain k ds where c: "c = (k, ds)" by (cases c)
  from Cons.prems(1)[unfolded c] show ?case
  proof (cases rule: start_all_step)
    case (throws lg er x)
    with Cons.prems(2) show ?thesis by auto
  next
    case (skipped lg er st' ts')
    with Cons.prems(2) Cons.IH[OF skipped(3)] show ?thesis by auto
  next
    case (started lg ds' st' ts' started')
    with Cons.prems(2) Cons.IH[OF started(2)] show ?thesis by auto
  next
    case (uncaught lg ds' x)
    with Cons.prems(2) show ?thesis by auto
  qed
qed

lemma start_all_lengths:
  "start_all E cb data cs = (st, ts, started, u) \<Longrightarrow> length started \<le> length cs"
proof (induction cs arbitrary: st ts started u)
  case Nil
  then show ?case by simp
next
  case (Cons c cs)
  obtain k ds where c: "c = (k, ds)" by (cases c)
  from Cons.prems(1)[unfolded c] show ?case
  proof (cases rule: start_all_step)
    case (skipped lg er st' ts')
    with Cons.IH[OF skipped(3)] show ?thesis by simp
  next
    case (started lg ds' st' ts' started')
    with Cons.IH[OF started(2)] show ?thesis by simp
  qed simp_all
qed

text \<open>A datasource that is answered with an error is a fetch that is not started: the
  count of the fetches never reaches the number of the datasources, and
  \<open>processChained\<close> does not call back without an error.\<close>

lemma start_all_skipped_short:
  "start_all E cb data cs = (st, ts, started, u) \<Longrightarrow> (k, ds) \<in> set cs \<Longrightarrow>
   (\<forall>ds'. snd (start_chained E data ds) \<noteq> Started ds') \<Longrightarrow> length started < length cs"
proof (induction cs arbitrary: st ts started u)
  case Nil
  then show ?case by simp
next
  case (Cons c cs)
  obtain k' ds0 where c: "c = (k', ds0)" by (cases c)
  from Cons.prems(1)[unfolded c] show ?case
  proof (cases rule: start_all_step)
    case (skipped lg er st' ts')
    from start_all_lengths[OF skipped(3)] show ?thesis by simp
  next
    case (started lg ds' st' ts' started')
    with Cons.prems(2,3) c have "(k, ds) \<in> set cs" by auto
    from Cons.IH[OF started(2) this Cons.prems(3)] started show ?thesis by simp
  qed simp_all
qed

lemma finish_all_steps: "s \<in> set (fst (finish_all E started data)) \<Longrightarrow> \<exists>l. s = Logged l"
proof (induction started arbitrary: data)
  case Nil
  then show ?case by simp
next
  case (Cons x started)
  obtain k ds where x: "x = (k, ds)" by (cases x)
  obtain e cd r where l: "load E ds = (e, cd, r)" by (cases "load E ds") auto
  from Cons.prems show ?case
    unfolding x
    by (auto simp: l split_beta split: option.splits dest: Cons.IH)
qed

lemma finish_all_logs:
  "(k, ds) \<in> set started \<Longrightarrow> fst (load E ds) = Some er \<Longrightarrow>
     Logged (LogErr er) \<in> set (fst (finish_all E started data))"
proof (induction started arbitrary: data)
  case Nil
  then show ?case by simp
next
  case (Cons x started)
  obtain k' ds' where x: "x = (k', ds')" by (cases x)
  obtain e cd r where l: "load E ds' = (e, cd, r)" by (cases "load E ds'") auto
  show ?case
  proof (cases "(k, ds) = (k', ds')")
    case True
    with Cons.prems(2) l show ?thesis
      unfolding x by (simp add: split_beta)
  next
    case False
    with Cons.prems x have "(k, ds) \<in> set started" by auto
    from Cons.IH[OF this Cons.prems(2)] show ?thesis
      unfolding x by (simp add: l split_beta)
  qed
qed

text \<open>What the fetches deliver has no part in which datasources are started and which
  are answered with an error.\<close>

lemma start_chained_load: "start_chained (E\<lparr> load := l \<rparr>) data ds = start_chained E data ds"
proof -
  have sel: "parseInt (E\<lparr> load := l \<rparr>) = parseInt E"
    "encodeURIComponent (E\<lparr> load := l \<rparr>) = encodeURIComponent E"
    "inject_query (E\<lparr> load := l \<rparr>) = inject_query E"
    "passFilters (E\<lparr> load := l \<rparr>) = passFilters E"
    "params_page (E\<lparr> load := l \<rparr>) = params_page E"
    by simp_all
  have dp: "data_prop (E\<lparr> load := l \<rparr>) = data_prop E"
    by (auto simp: data_prop_def fun_eq_iff split: option.splits)
  have rp: "read_prop (E\<lparr> load := l \<rparr>) = read_prop E"
    by (auto simp: read_prop_def fun_eq_iff split: option.splits jsval.splits)
  have ep: "extract_param (E\<lparr> load := l \<rparr>) = extract_param E"
    by (intro ext) (simp only: extract_param_def rp)
  show ?thesis
    unfolding start_chained_def sel dp ep by (rule refl)
qed

lemma start_all_load:
  "snd (start_all (E\<lparr> load := l \<rparr>) cb data cs) = snd (start_all E cb data cs) \<and>
   done_calls (fst (start_all (E\<lparr> load := l \<rparr>) cb data cs))
     = done_calls (fst (start_all E cb data cs))"
proof (induction cs)
  case Nil
  then show ?case by simp
next
  case (Cons x cs)
  obtain k ds where x: "x = (k, ds)" by (cases x)
  obtain lg stp where s: "start_chained E data ds = (lg, stp)"
    by (cases "start_chained E data ds")
  obtain st ts started u where r: "start_all E cb data cs = (st, ts, started, u)"
    by (cases "start_all E cb data cs") auto
  obtain st' where r': "start_all (E\<lparr> load := l \<rparr>) cb data cs = (st', ts, started, u)"
    and d: "done_calls st' = done_calls st"
    using Cons.IH r by (cases "start_all (E\<lparr> load := l \<rparr>) cb data cs") auto
  show ?case
    unfolding x
    by (cases stp; cases "thrown (cb (Some (case stp of Skipped er \<Rightarrow> er)) JUndefined JUndefined)")
       (simp_all add: start_chained_load s r r' d call_done_def)
qed

lemma finish_all_data_steps:
  "done_calls (fst (finish_all E started data)) = []"
proof (induction started arbitrary: data)
  case Nil
  then show ?case by simp
next
  case (Cons x started)
  obtain k ds where x: "x = (k, ds)" by (cases x)
  obtain e cd r where l: "load E ds = (e, cd, r)" by (cases "load E ds") auto
  show ?case
    unfolding x by (simp add: l split_beta Cons.IH split: option.splits)
qed

text \<open>When every datasource is started, the loop calls \<open>done\<close> for none of them.\<close>

lemma start_all_all_started:
  "(\<forall>c \<in> set cs. \<exists>ds'. snd (start_chained E data (snd c)) = Started ds') \<Longrightarrow>
     length (fst (snd (snd (start_all E cb data cs)))) = length cs \<and>
     snd (snd (snd (start_all E cb data cs))) = None \<and>
     done_calls (fst (start_all E cb data cs)) = []"
proof (induction cs)
  case Nil
  then show ?case by simp
next
  case (Cons x cs)
  obtain k ds where x: "x = (k, ds)" by (cases x)
  from Cons.prems x obtain ds' where "snd (start_chained E data ds) = Started ds'" by auto
  then obtain lg where s: "start_chained E data ds = (lg, Started ds')"
    by (cases "start_chained E data ds") auto
  from Cons.prems have "\<forall>c \<in> set cs. \<exists>ds'. snd (start_chained E data (snd c)) = Started ds'"
    by simp
  from Cons.IH[OF this] show ?case
    unfolding x by (simp add: s split_beta)
qed

subsection \<open>The stages\<close>

lemma after_steps_simps [simp]:
  "lr_steps (after_steps st r) = st @ lr_steps r"
  "lr_data (after_steps st r) = lr_data r"
  "lr_uncaught (after_steps st r) = lr_uncaught r"
  by (simp_all add: after_steps_def)

lemma processChained_steps:
  "s \<in> set (pc_steps (processChained E cb cs data)) \<Longrightarrow>
     (\<exists>l. s = Logged l) \<or> (\<exists>er. s = call_done cb (Some er) JUndefined JUndefined)
     \<or> (\<exists>k e. s = Fetched_chained k e)"
proof (cases "cs = []")
  case True
  assume "s \<in> set (pc_steps (processChained E cb cs data))"
  with True show ?thesis by (simp add: processChained_def)
next
  case False
  assume m: "s \<in> set (pc_steps (processChained E cb cs data))"
  obtain st ts started u where a: "start_all E cb data cs = (st, ts, started, u)"
    by (cases "start_all E cb data cs") auto
  from m False a have "s \<in> set st \<or> s \<in> set (fst (finish_all E started data))"
    by (auto simp: processChained_def split_beta)
  then show ?thesis
    using start_all_steps[OF a, of s] finish_all_steps[of s E started data] by auto
qed

lemma postload_steps:
  "s \<in> set (lr_steps (postload_stage E cb i evs data)) \<Longrightarrow>
     (\<exists>n. s = Ran_event n) \<or> (\<exists>l. s = Logged l)
     \<or> (\<exists>er. s = call_done cb (Some er) JUndefined JUndefined)
     \<or> s = call_done cb None (JObj (lr_data (postload_stage E cb i evs data))) JUndefined"
proof -
  assume m: "s \<in> set (lr_steps (postload_stage E cb i evs data))"
  obtain st own r where e: "event_stage (modules E) (now E) i evs data data True = (st, own, r)"
    by (cases "event_stage (modules E) (now E) i evs data data True") auto
  have st: "s \<in> set st \<Longrightarrow> (\<exists>n. s = Ran_event n) \<or> (\<exists>l. s = Logged l)"
    using event_stage_steps[of s "modules E" "now E" i evs data data True] e by simp
  show ?thesis
  proof (cases r)
    case (Inl er)
    with m e st show ?thesis by (auto simp: postload_stage_def)
  next
    case (Inr cur)
    with m e st show ?thesis
      by (cases "thrown (cb None (JObj own) JUndefined)"; cases "evs = []")
         (auto simp: postload_stage_def)
  qed
qed

lemma chained_stage_steps:
  "s \<in> set (lr_steps (chained_stage E cb i cs evs data)) \<Longrightarrow>
     (\<exists>n. s = Ran_event n) \<or> (\<exists>l. s = Logged l) \<or> (\<exists>k e. s = Fetched_chained k e)
     \<or> (\<exists>er. s = call_done cb (Some er) JUndefined JUndefined)
     \<or> s = call_done cb None (JObj (lr_data (chained_stage E cb i cs evs data))) JUndefined"
proof -
  assume m: "s \<in> set (lr_steps (chained_stage E cb i cs evs data))"
  let ?pc = "processChained E cb cs data"
  show ?thesis
  proof (cases "pc_complete ?pc")
    case True
    with m have "s \<in> set (pc_steps ?pc)
        \<or> s \<in> set (lr_steps (postload_stage E cb i evs (pc_data ?pc)))"
      by (auto simp: chained_stage_def Let_def)
    then show ?thesis
      using processChained_steps[of s E cb cs data]
        postload_steps[of s E cb i evs "pc_data ?pc"] True
      by (auto simp: chained_stage_def Let_def)
  next
    case False
    with m have "s \<in> set (pc_steps ?pc)" by (simp add: chained_stage_def Let_def)
    then show ?thesis using processChained_steps[of s E cb cs data] by auto
  qed
qed

lemma chained_stage_no_fetch: "Fetched k e \<notin> set (lr_steps (chained_stage E cb i cs evs data))"
  using chained_stage_steps[of "Fetched k e" E cb i cs evs data] by (auto simp: call_done_def)

lemma chained_stage_calls:
  "Called_done e dd r out \<in> set (lr_steps (chained_stage E cb i cs evs data)) \<Longrightarrow>
     out = cb e dd r \<and>
     (e \<noteq> None \<or> truthy r \<or> dd = JObj (lr_data (chained_stage E cb i cs evs data)))"
  using chained_stage_steps[of "Called_done e dd r out" E cb i cs evs data]
  by (auto simp: call_done_def)

lemma primary_stage_calls:
  "Called_done e dd r out \<in> set (lr_steps (primary_stage E cb i ps cs evs data)) \<Longrightarrow>
     out = cb e dd r \<and>
     (e \<noteq> None \<or> truthy r \<or> dd = JObj (lr_data (primary_stage E cb i ps cs evs data)))"
proof -
  assume m: "Called_done e dd r out \<in> set (lr_steps (primary_stage E cb i ps cs evs data))"
  obtain st u d dr where q: "primary_queue E cb ps data = (st, u, d, dr)"
    by (cases "primary_queue E cb ps data") auto
  show ?thesis
  proof (cases dr)
    case True
    with m q have "Called_done e dd r out \<in> set st
        \<or> Called_done e dd r out \<in> set (lr_steps (chained_stage E cb i cs evs d))"
      by (auto simp: primary_stage_def)
    then show ?thesis
      using primary_queue_calls[OF q, of e dd r out]
        chained_stage_calls[of e dd r out E cb i cs evs d] q True
      by (auto simp: primary_stage_def)
  next
    case False
    with m q have "Called_done e dd r out \<in> set st" by (simp add: primary_stage_def)
    then show ?thesis using primary_queue_calls[OF q, of e dd r out] by auto
  qed
qed

lemma primary_stage_fetch_error:
  assumes "lr_steps (primary_stage E cb i ps cs evs data) = xs @ Fetched k (Some er) # ys"
  shows "ys = [call_done cb (Some er) JUndefined JUndefined]"
proof -
  obtain st u d dr where q: "primary_queue E cb ps data = (st, u, d, dr)"
    by (cases "primary_queue E cb ps data") auto
  show ?thesis
  proof (cases dr)
    case True
    with q have "lr_steps (primary_stage E cb i ps cs evs data)
                   = st @ lr_steps (chained_stage E cb i cs evs d)"
      by (simp add: primary_stage_def)
    moreover have "Fetched k (Some er) \<notin> set st"
      using primary_queue_drained[of E cb ps data st u d k er] q True by simp
    moreover have "Fetched k (Some er) \<notin> set (lr_steps (chained_stage E cb i cs evs d))"
      by (rule chained_stage_no_fetch)
    ultimately have "Fetched k (Some er) \<notin> set (xs @ Fetched k (Some er) # ys)"
      using assms by simp
    then show ?thesis by simp
  next
    case False
    with q assms have "st = xs @ Fetched k (Some er) # ys" by (simp add: primary_stage_def)
    from primary_queue_fetch_error[OF q this] show ?thesis by simp
  qed
qed

text \<open>
  Every call of \<open>done\<close> that \<open>loadData\<close> makes is in the steps with what the continuation
  did; a call without an error and without a raw response hands over the data object of
  \<open>loadData\<close>.
\<close>

lemma loadData_calls:
  "Called_done e dd r out \<in> set (lr_steps (loadData E cb dss pre evs data)) \<Longrightarrow>
     out = cb e dd r \<and>
     (e \<noteq> None \<or> truthy r \<or> dd = JObj (lr_data (loadData E cb dss pre evs data)))"
proof -
  assume m: "Called_done e dd r out \<in> set (lr_steps (loadData E cb dss pre evs data))"
  let ?ps = "filter (\<lambda>(k, ds). ds_chained ds = None) dss"
  let ?cs = "filter (\<lambda>(k, ds). ds_chained ds \<noteq> None) dss"
  obtain st own rr where
    ev: "event_stage (modules E) (now E) 0 pre data data True = (st, own, rr)"
    by (cases "event_stage (modules E) (now E) 0 pre data data True") auto
  have st: "Called_done e dd r out \<notin> set st"
    using event_stage_steps[of "Called_done e dd r out" "modules E" "now E" 0 pre data data True]
      ev by auto
  show ?thesis
  proof (cases rr)
    case (Inl er)
    with m ev st show ?thesis by (auto simp: loadData_def call_done_def)
  next
    case (Inr cur)
    show ?thesis
    proof (cases "dss = []")
      case True
      with m ev st Inr show ?thesis
        using chained_stage_calls[of e dd r out E cb "length pre" "[]" evs own]
        by (auto simp: loadData_def)
    next
      case False
      show ?thesis
      proof (cases "?ps = []")
        case True
        with m ev st Inr False show ?thesis by (auto simp: loadData_def)
      next
        case ne: False
        with m ev st Inr False show ?thesis
          using primary_stage_calls[of e dd r out E cb "length pre" ?ps ?cs evs own]
          by (auto simp: loadData_def Let_def)
      qed
    qed
  qed
qed

text \<open>
  A primary fetch that delivers an error is followed by the call of \<open>done\<close> with that
  error, and by nothing else.
\<close>

lemma loadData_fetch_error:
  assumes "lr_steps (loadData E cb dss pre evs data) = xs @ Fetched k (Some er) # ys"
  shows "ys = [call_done cb (Some er) JUndefined JUndefined]"
proof -
  let ?ps = "filter (\<lambda>(k, ds). ds_chained ds = None) dss"
  let ?cs = "filter (\<lambda>(k, ds). ds_chained ds \<noteq> None) dss"
  let ?a = "Fetched k (Some er)"
  obtain st own rr where
    ev: "event_stage (modules E) (now E) 0 pre data data True = (st, own, rr)"
    by (cases "event_stage (modules E) (now E) 0 pre data data True") auto
  have st: "?a \<notin> set st"
    using event_stage_steps[of ?a "modules E" "now E" 0 pre data data True] ev by auto
  have mem: "?a \<in> set (lr_steps (loadData E cb dss pre evs data))"
    using assms by simp
  show ?thesis
  proof (cases rr)
    case (Inl er')
    with mem ev st show ?thesis by (auto simp: loadData_def call_done_def)
  next
    case (Inr cur)
    show ?thesis
    proof (cases "dss = []")
      case True
      with mem ev st Inr show ?thesis
        using chained_stage_no_fetch[of k "Some er" E cb "length pre" "[]" evs own]
        by (auto simp: loadData_def)
    next
      case False
      show ?thesis
      proof (cases "?ps = []")
        case True
        with mem ev st Inr False show ?thesis by (auto simp: loadData_def)
      next
        case ne: False
        with ev Inr False
        have "lr_steps (loadData E cb dss pre evs data)
                = st @ lr_steps (primary_stage E cb (length pre) ?ps ?cs evs own)"
          by (simp add: loadData_def Let_def)
        with assms
        have "xs @ ?a # ys = st @ lr_steps (primary_stage E cb (length pre) ?ps ?cs evs own)"
          by simp
        from append_Cons_split[OF this st] obtain zs where
          "lr_steps (primary_stage E cb (length pre) ?ps ?cs evs own) = zs @ ?a # ys"
          by auto
        then show ?thesis by (rule primary_stage_fetch_error)
      qed
    qed
  qed
qed

subsection \<open>The chained stage and what its fetches deliver\<close>

lemma processChained_load:
  "done_calls (pc_steps (processChained (E\<lparr> load := l \<rparr>) cb cs data))
     = done_calls (pc_steps (processChained E cb cs data)) \<and>
   pc_complete (processChained (E\<lparr> load := l \<rparr>) cb cs data)
     = pc_complete (processChained E cb cs data) \<and>
   pc_uncaught (processChained (E\<lparr> load := l \<rparr>) cb cs data)
     = pc_uncaught (processChained E cb cs data)"
proof (cases "cs = []")
  case True
  then show ?thesis by (simp add: processChained_def)
next
  case False
  obtain st ts started u where a: "start_all E cb data cs = (st, ts, started, u)"
    by (cases "start_all E cb data cs") auto
  obtain st' where a': "start_all (E\<lparr> load := l \<rparr>) cb data cs = (st', ts, started, u)"
    and d: "done_calls st' = done_calls st"
    using start_all_load[where E = E and l = l and cb = cb and data = data and cs = cs] a
    by (cases "start_all (E\<lparr> load := l \<rparr>) cb data cs") auto
  show ?thesis
    using False a a' d
    by (simp add: processChained_def split_beta finish_all_data_steps)
qed

lemma processChained_logged:
  assumes "Fetched_chained k (Some ec) \<in> set (pc_steps (processChained E cb cs data))"
  shows "Logged (LogErr ec) \<in> set (pc_steps (processChained E cb cs data))"
proof (cases "cs = []")
  case True
  with assms show ?thesis by (simp add: processChained_def)
next
  case False
  obtain st ts started u where a: "start_all E cb data cs = (st, ts, started, u)"
    by (cases "start_all E cb data cs") auto
  have steps: "pc_steps (processChained E cb cs data) = st @ fst (finish_all E started data)"
    using False a by (simp add: processChained_def split_beta)
  have "Fetched_chained k (Some ec) \<notin> set (fst (finish_all E started data))"
    using finish_all_steps[of "Fetched_chained k (Some ec)" E started data] by auto
  with assms steps have "Fetched_chained k (Some ec) \<in> set st" by simp
  from start_all_steps[OF a this] obtain ds' where
    "(k, ds') \<in> set started" "fst (load E ds') = Some ec"
    by (auto simp: call_done_def)
  from finish_all_logs[OF this] show ?thesis
    unfolding steps by simp
qed

lemma processChained_all_started:
  assumes "\<forall>c \<in> set cs. \<exists>ds'. snd (start_chained E data (snd c)) = Started ds'"
  shows "pc_complete (processChained E cb cs data) \<and>
         pc_uncaught (processChained E cb cs data) = None \<and>
         done_calls (pc_steps (processChained E cb cs data)) = []"
proof (cases "cs = []")
  case True
  then show ?thesis by (simp add: processChained_def)
next
  case False
  with start_all_all_started[OF assms, of cb] show ?thesis
    by (simp add: processChained_def split_beta finish_all_data_steps)
qed

lemma chained_stage_complete:
  "pc_complete (processChained E cb cs data) \<Longrightarrow>
     lr_steps (chained_stage E cb i cs evs data) =
       pc_steps (processChained E cb cs data)
         @ lr_steps (postload_stage E cb i evs (pc_data (processChained E cb cs data)))"
  by (simp add: chained_stage_def Let_def)

text \<open>On a page without required datasources the callback of \<open>process\<close> does not throw
  when it is handed the data object.\<close>

lemma process_cb_data_returns: "thrown (process_cb [] render st None (JObj d) JUndefined) = None"
  by (auto simp: process_cb_data split: sum.splits)

lemma postload_process:
  assumes "event_stage (modules E) (now E) i evs data data True = (st, own, Inr cur)"
  shows "lr_steps (postload_stage E (process_cb [] render s) i evs data) =
           st @ [Called_done None (JObj own) JUndefined
                   (process_cb [] render s None (JObj own) JUndefined)]"
  using assms by (simp add: postload_stage_def process_cb_data_returns call_done_def)

section \<open>Claims about the controller and the events\<close>

lemmas pipeline_eval =
  process_def loadData_def primary_stage_def chained_stage_def postload_stage_def
  processChained_def start_chained_def run_filterEvent_def call_done_def after_steps_def
  data_prop_def read_prop_def extract_param_def
  example_env_def example_ds_def example_chained_def example_chained_to_def example_data_def
  object_prototype_def error_with_def js_or_def chained_message_def

lemmas callback_eval =
  process_cb_def requiredDataPresent_def required_present_def Send_def

text \<open>
  C4, as stated: the check passes exactly when every required key is in the working data
  set with a \<open>results\<close> list that is not empty, and when it fails \<open>process\<close> calls
  \<open>next()\<close>. The check reads \<open>results.length\<close> of whatever \<open>results\<close> is: with the string
  \<open>'abc'\<close> for \<open>results\<close> it passes, and there is no list. With \<open>null\<close> under the
  required key the check neither passes nor returns false: it throws, and the callback
  of \<open>process\<close> does not call \<open>next()\<close>. It throws as well on a data set that has a
  property named \<open>hasOwnProperty\<close>, though the required key is there with its results.
\<close>

theorem gate_reads_length_counterexample:
  "requiredDataPresent [''reviews'']
      (JObj [(''reviews'', JObj [(''results'', JStr ''abc'')])]) = Inr True \<and>
   \<not> has_results [(''reviews'', JObj [(''results'', JStr ''abc'')])] ''reviews'' \<and>
   process_cb [''reviews''] (\<lambda>d. Inr d) (JNum 200) None
      (JObj [(''reviews'', JNull)]) JUndefined = Throws TypeError \<and>
   has_results [(''hasOwnProperty'', JBool True),
                (''reviews'', JObj [(''results'', JArr [JNum 1])])] ''reviews'' \<and>
   requiredDataPresent [''reviews'']
      (JObj [(''hasOwnProperty'', JBool True),
             (''reviews'', JObj [(''results'', JArr [JNum 1])])]) = Inl TypeError"
  by (simp add: callback_eval has_results_def)

text \<open>
  C4, amended. Take a working data set that has no property named \<open>hasOwnProperty\<close> and
  in which what is stored under a required key is neither \<open>null\<close> nor \<open>undefined\<close> nor an
  object with a property \<open>hasOwnProperty\<close> or with \<open>results\<close> that is not a list. On it
  \<open>requiredDataPresent\<close> passes exactly when every required key is present with a
  \<open>results\<close> list that is not empty. Whenever the check returns false, whatever the
  error, the data and the raw response are, the callback of \<open>process\<close> calls \<open>next()\<close>:
  nothing is sent and the error chain is not entered. And a load that completes, that
  is one that ends with a call of \<open>done\<close> without an error and without a raw response,
  hands the working data set to that callback: the check is made on the data object of
  \<open>loadData\<close> as the load has left it.
\<close>

theorem required_data_gate:
  assumes "map_of kvs ''hasOwnProperty'' = None"
    and "\<forall>k \<in> set required. \<forall>v. map_of kvs k = Some v \<longrightarrow> entry_ok v"
  shows "requiredDataPresent required (JObj kvs)
           = Inr (\<forall>k \<in> set required. has_results kvs k) \<and>
         (\<forall>data st e dsResponse.
            requiredDataPresent required data = Inr False \<longrightarrow>
            process_cb required render st e data dsResponse = Next) \<and>
         (\<forall>E st datasources preloadEvents events data d out.
            Called_done None d JUndefined out
              \<in> set (lr_steps (process E required render st datasources preloadEvents
                                events data)) \<longrightarrow>
            d = JObj (lr_data (process E required render st datasources preloadEvents
                                 events data)) \<and>
            out = process_cb required render st None d JUndefined)"
proof (intro conjI allI impI)
  show "requiredDataPresent required (JObj kvs) = Inr (\<forall>k \<in> set required. has_results kvs k)"
    using every_required_typed[OF assms] by (auto simp: requiredDataPresent_def)
next
  fix data st e dsResponse
  assume "requiredDataPresent required data = Inr False"
  then show "process_cb required render st e data dsResponse = Next"
    by (simp add: process_cb_def)
next
  fix E st datasources preloadEvents events data d out
  assume c: "Called_done None d JUndefined out
              \<in> set (lr_steps (process E required render st datasources preloadEvents
                                events data))"
  from loadData_calls[OF c[unfolded process_def]]
  show "d = JObj (lr_data (process E required render st datasources preloadEvents events data))"
    and "out = process_cb required render st None d JUndefined"
    by (simp_all add: process_def)
qed

theorem required_data_gate_witness:
  "requiredDataPresent [''makes''] (JObj (set_prop example_data ''makes''
      (JObj [(''results'', JArr [JObj [(''id'', JStr ''7'')]])]))) = Inr True \<and>
   requiredDataPresent [''cars''] (JObj (set_prop example_data ''makes''
      (JObj [(''results'', JArr [JObj [(''id'', JStr ''7'')]])]))) = Inr False \<and>
   lr_steps (process (example_env (error_with ''boom'')) [''cars''] (\<lambda>d. Inr d) (JNum 200)
      [(''makes'', example_ds ''makes'' None)] [] [] example_data)
     = [Fetched ''makes'' None,
        Called_done None
          (JObj (set_prop example_data ''makes''
             (JObj [(''results'', JArr [JObj [(''id'', JStr ''7'')]])])))
          JUndefined Next]"
proof -
  let ?E = "example_env (error_with ''boom'')"
  let ?d = "set_prop example_data ''makes''
              (JObj [(''results'', JArr [JObj [(''id'', JStr ''7'')]])])"
  let ?p = "process ?E [''cars''] (\<lambda>d. Inr d) (JNum 200)
              [(''makes'', example_ds ''makes'' None)] [] [] example_data"
  have pl: "map_of ?d ''hasOwnProperty'' = None"
    by (simp add: example_data_def)
  have a: "\<forall>k \<in> set [''makes'']. \<forall>v. map_of ?d k = Some v \<longrightarrow> entry_ok v"
    by (simp add: example_data_def)
  have b: "\<forall>k \<in> set [''cars'']. \<forall>v. map_of ?d k = Some v \<longrightarrow> entry_ok v"
    by (simp add: example_data_def)
  have s: "lr_steps ?p = [Fetched ''makes'' None, Called_done None (JObj ?d) JUndefined Next]"
    by (simp add: pipeline_eval callback_eval)
  note t1 = required_data_gate [OF pl a, of "\<lambda>d. Inr d"]
  note t2 = required_data_gate [OF pl b, of "\<lambda>d. Inr d"]
  from t1 have 1: "requiredDataPresent [''makes''] (JObj ?d) = Inr True"
    by (simp add: has_results_def example_data_def)
  from t2 have 2: "requiredDataPresent [''cars''] (JObj ?d) = Inr False"
    by (simp add: has_results_def example_data_def)
  have m: "Called_done None (JObj ?d) JUndefined Next \<in> set (lr_steps ?p)"
    unfolding s by simp
  from t2 have "\<forall>d out. Called_done None d JUndefined out \<in> set (lr_steps ?p)
                  \<longrightarrow> out = process_cb [''cars''] (\<lambda>d. Inr d) (JNum 200) None d JUndefined"
    by blast
  with m have "Next = process_cb [''cars''] (\<lambda>d. Inr d) (JNum 200) None (JObj ?d) JUndefined"
    by blast
  with 1 2 s show ?thesis by simp
qed

text \<open>
  C5, as stated: an error from a primary fetch propagates to the error chain, and an
  error from a chained fetch leaves the chained stage to complete and the request to go
  on to postload and render. A primary error does not reach the error chain when its
  status is 404: the load is aborted with the error, and the callback of \<open>process\<close>
  answers it with \<open>next()\<close>, the not-found continuation. It does not reach it either on
  a page with required datasources, where the callback throws before it looks at the
  error. And the chained stage does not complete, whatever its fetches deliver, when one
  of the chained datasources is not started: here \<open>related\<close> is fetched and fails,
  \<open>similar\<close> has no parent, and the load ends with the error of \<open>similar\<close>.
\<close>

theorem fetch_error_counterexample:
  "lr_steps (process (example_env \<lparr> err_message = ''Not Found'', err_statusCode = JNum 404,
                                    err_json = JUndefined \<rparr>)
               [] (\<lambda>d. Inr d) (JNum 200)
               [(''cars'', example_ds ''cars'' None)] [] [] example_data)
     = [Fetched ''cars''
          (Some \<lparr> err_message = ''Not Found'', err_statusCode = JNum 404,
                  err_json = JUndefined \<rparr>),
        Called_done
          (Some \<lparr> err_message = ''Not Found'', err_statusCode = JNum 404,
                  err_json = JUndefined \<rparr>)
          JUndefined JUndefined Next] \<and>
   lr_steps (process (example_env (error_with ''boom'')) [''cars''] (\<lambda>d. Inr d) (JNum 200)
               [(''cars'', example_ds ''cars'' None)] [] [] example_data)
     = [Fetched ''cars'' (Some (error_with ''boom'')),
        Called_done (Some (error_with ''boom'')) JUndefined JUndefined (Throws TypeError)] \<and>
   lr_steps (process (example_env (error_with ''boom'')) [] (\<lambda>d. Inr d) (JNum 200)
               [(''makes'', example_ds ''makes'' None),
                (''related'', example_ds ''related'' (Some example_chained)),
                (''similar'', example_ds ''similar'' (Some (example_chained_to ''models'')))]
               [] [] example_data)
     = [Fetched ''makes'' None,
        Fetched_chained ''related'' (Some (error_with ''boom'')),
        Logged (LogWarn (chained_message ''similar'' ''models'')),
        Called_done (Some (error_with (chained_message ''similar'' ''models'')))
          JUndefined JUndefined (NextErr (error_with (chained_message ''similar'' ''models''))),
        Logged (LogErr (error_with ''boom''))]"
  by (simp add: pipeline_eval callback_eval dec.simps)

text \<open>
  C5, amended, for a page that declares no required datasources.

  Primary: when the fetch of a primary datasource delivers an error, the next step of the
  load is the call of \<open>done\<close> with that error and no data, and it is the last step: nothing
  is fetched, no event is run and \<open>done\<close> is not called after it. The callback of
  \<open>process\<close> passes the error on to the error chain, unless its status is 404, when it
  calls \<open>next()\<close>.

  Chained: the error that the fetch of a chained datasource delivers is logged. It is not
  passed to \<open>done\<close>: the calls of \<open>done\<close> that \<open>processChained\<close> makes, and whether it
  completes, are the same whatever the fetches deliver. When the fetch of every chained
  datasource is started, \<open>processChained\<close> calls \<open>done\<close> for none of them and completes,
  and the load goes on with the postload events; when none of these reports an error,
  the load ends with the call of \<open>done\<close> without an error and with the data object, which
  the callback of \<open>process\<close> sends (JSON view) or renders.
\<close>

theorem fetch_error_policy:
  "(\<forall>xs ys. lr_steps (process E [] render st datasources preloadEvents events data)
              = xs @ Fetched k (Some er) # ys \<longrightarrow>
            ys = [Called_done (Some er) JUndefined JUndefined
                    (if err_statusCode er = JNum 404 then Next else NextErr er)]) \<and>
   (Fetched_chained kc (Some ec) \<in> set (pc_steps (processChained E cb chainedDatasources cd))
      \<longrightarrow> Logged (LogErr ec) \<in> set (pc_steps (processChained E cb chainedDatasources cd))) \<and>
   done_calls (pc_steps (processChained (E\<lparr> load := l \<rparr>) cb chainedDatasources cd))
     = done_calls (pc_steps (processChained E cb chainedDatasources cd)) \<and>
   pc_complete (processChained (E\<lparr> load := l \<rparr>) cb chainedDatasources cd)
     = pc_complete (processChained E cb chainedDatasources cd) \<and>
   ((\<forall>c \<in> set chainedDatasources. \<exists>ds'. snd (start_chained E cd (snd c)) = Started ds')
      \<longrightarrow> pc_complete (processChained E cb chainedDatasources cd) \<and>
          done_calls (pc_steps (processChained E cb chainedDatasources cd)) = [] \<and>
          lr_steps (chained_stage E cb i chainedDatasources events cd)
            = pc_steps (processChained E cb chainedDatasources cd)
                @ lr_steps (postload_stage E cb i events
                              (pc_data (processChained E cb chainedDatasources cd)))) \<and>
   (event_stage (modules E) (now E) i events pd pd True = (pst, own, Inr cur)
      \<longrightarrow> lr_steps (postload_stage E (process_cb [] render st) i events pd)
            = pst @ [Called_done None (JObj own) JUndefined
                       (if truthy (field own ''json'')
                        then Sent (js_or st (JNum 200)) (JObj own)
                        else (case render (JObj own) of
                                Inl re \<Rightarrow> NextErr re
                              | Inr page \<Rightarrow> Sent (js_or st (JNum 200)) page))])"
proof (intro conjI allI impI)
  fix xs ys
  assume "lr_steps (process E [] render st datasources preloadEvents events data)
            = xs @ Fetched k (Some er) # ys"
  then have "ys = [call_done (process_cb [] render st) (Some er) JUndefined JUndefined]"
    unfolding process_def by (rule loadData_fetch_error)
  then show "ys = [Called_done (Some er) JUndefined JUndefined
                    (if err_statusCode er = JNum 404 then Next else NextErr er)]"
    by (simp add: call_done_def process_cb_error)
next
  assume "Fetched_chained kc (Some ec) \<in> set (pc_steps (processChained E cb chainedDatasources cd))"
  then show "Logged (LogErr ec) \<in> set (pc_steps (processChained E cb chainedDatasources cd))"
    by (rule processChained_logged)
next
  show "done_calls (pc_steps (processChained (E\<lparr> load := l \<rparr>) cb chainedDatasources cd))
     = done_calls (pc_steps (processChained E cb chainedDatasources cd))"
    using processChained_load by blast
next
  show "pc_complete (processChained (E\<lparr> load := l \<rparr>) cb chainedDatasources cd)
     = pc_complete (processChained E cb chainedDatasources cd)"
    using processChained_load by blast
next
  assume a: "\<forall>c \<in> set chainedDatasources. \<exists>ds'. snd (start_chained E cd (snd c)) = Started ds'"
  from processChained_all_started[OF a, of cb]
  show "pc_complete (processChained E cb chainedDatasources cd)"
    and "done_calls (pc_steps (processChained E cb chainedDatasources cd)) = []"
    by simp_all
  then show "lr_steps (chained_stage E cb i chainedDatasources events cd)
            = pc_steps (processChained E cb chainedDatasources cd)
                @ lr_steps (postload_stage E cb i events
                              (pc_data (processChained E cb chainedDatasources cd)))"
    by (simp add: chained_stage_complete)
next
  assume "event_stage (modules E) (now E) i events pd pd True = (pst, own, Inr cur)"
  from postload_process[OF this, of render st]
  show "lr_steps (postload_stage E (process_cb [] render st) i events pd)
            = pst @ [Called_done None (JObj own) JUndefined
                       (if truthy (field own ''json'')
                        then Sent (js_or st (JNum 200)) (JObj own)
                        else (case render (JObj own) of
                                Inl re \<Rightarrow> NextErr re
                              | Inr page \<Rightarrow> Sent (js_or st (JNum 200)) page))]"
    by (simp add: process_cb_data field_def)
qed
theorem fetch_error_policy_witness:
  "lr_steps (process (example_env (error_with ''boom'')) [] (\<lambda>d. Inr d) (JNum 200)
               [(''makes'', example_ds ''makes'' None), (''cars'', example_ds ''cars'' None),
                (''related'', example_ds ''related'' (Some example_chained))]
               [] [] example_data)
     = [Fetched ''makes'' None, Fetched ''cars'' (Some (error_with ''boom'')),
        Called_done (Some (error_with ''boom'')) JUndefined JUndefined
          (NextErr (error_with ''boom''))] \<and>
   pc_complete (processChained (example_env (error_with ''boom''))
                  (process_cb [] (\<lambda>d. Inr d) (JNum 200))
                  [(''related'', example_ds ''related'' (Some example_chained))]
                  (set_prop example_data ''makes''
                     (JObj [(''results'', JArr [JObj [(''id'', JStr ''7'')]])]))) \<and>
   lr_steps (chained_stage (example_env (error_with ''boom''))
               (process_cb [] (\<lambda>d. Inr d) (JNum 200)) 0
               [(''related'', example_ds ''related'' (Some example_chained))] []
               (set_prop example_data ''makes''
                  (JObj [(''results'', JArr [JObj [(''id'', JStr ''7'')]])])))
     = [Fetched_chained ''related'' (Some (error_with ''boom'')),
        Logged (LogErr (error_with ''boom'')),
        Called_done None
          (JObj (set_prop example_data ''makes''
                   (JObj [(''results'', JArr [JObj [(''id'', JStr ''7'')]])])))
          JUndefined
          (Sent (JNum 200)
             (JObj (set_prop example_data ''makes''
                      (JObj [(''results'', JArr [JObj [(''id'', JStr ''7'')]])]))))]"
proof -
  let ?boom = "error_with ''boom''"
  let ?E = "example_env ?boom"
  let ?cb = "process_cb [] (\<lambda>d. Inr d) (JNum 200)"
  let ?makes = "(''makes'', example_ds ''makes'' None)"
  let ?cars = "(''cars'', example_ds ''cars'' None)"
  let ?rel = "(''related'', example_ds ''related'' (Some example_chained))"
  let ?d = "set_prop example_data ''makes''
              (JObj [(''results'', JArr [JObj [(''id'', JStr ''7'')]])])"
  note t = fetch_error_policy
    [where E = ?E and render = "\<lambda>d. Inr d" and st = "JNum 200"
       and datasources = "[?makes, ?cars, ?rel]" and preloadEvents = "[]" and events = "[]"
       and data = example_data and k = "''cars''" and er = ?boom
       and kc = "''related''" and ec = ?boom and cb = ?cb and chainedDatasources = "[?rel]"
       and cd = ?d and l = "load ?E" and i = 0 and pd = ?d and pst = "[]" and own = ?d
       and cur = ?d]
  have a: "\<exists>ys. lr_steps (process ?E [] (\<lambda>d. Inr d) (JNum 200) [?makes, ?cars, ?rel] [] []
                             example_data)
              = [Fetched ''makes'' None] @ Fetched ''cars'' (Some ?boom) # ys"
    by (simp add: pipeline_eval)
  then obtain ys where
    ys: "lr_steps (process ?E [] (\<lambda>d. Inr d) (JNum 200) [?makes, ?cars, ?rel] [] [] example_data)
              = [Fetched ''makes'' None] @ Fetched ''cars'' (Some ?boom) # ys"
    by blast
  with t have "ys = [Called_done (Some ?boom) JUndefined JUndefined
                       (if err_statusCode ?boom = JNum 404 then Next else NextErr ?boom)]"
    by blast
  with ys have 1:
    "lr_steps (process ?E [] (\<lambda>d. Inr d) (JNum 200) [?makes, ?cars, ?rel] [] [] example_data)
       = [Fetched ''makes'' None, Fetched ''cars'' (Some ?boom),
          Called_done (Some ?boom) JUndefined JUndefined (NextErr ?boom)]"
    by (simp add: error_with_def)
  have b: "\<forall>c \<in> set [?rel]. \<exists>ds'. snd (start_chained ?E ?d (snd c)) = Started ds'"
    by (simp add: pipeline_eval dec.simps)
  with t have 2: "pc_complete (processChained ?E ?cb [?rel] ?d)"
    and 3: "lr_steps (chained_stage ?E ?cb 0 [?rel] [] ?d)
              = pc_steps (processChained ?E ?cb [?rel] ?d)
                  @ lr_steps (postload_stage ?E ?cb 0 [] (pc_data (processChained ?E ?cb [?rel] ?d)))"
    by blast+
  have pc: "pc_steps (processChained ?E ?cb [?rel] ?d)
              = [Fetched_chained ''related'' (Some ?boom), Logged (LogErr ?boom)]"
    "pc_data (processChained ?E ?cb [?rel] ?d) = ?d"
    by (simp_all add: pipeline_eval dec.simps)
  have c: "event_stage (modules ?E) (now ?E) 0 [] ?d ?d True = ([], ?d, Inr ?d)"
    by simp
  with t have "lr_steps (postload_stage ?E ?cb 0 [] ?d)
            = [] @ [Called_done None (JObj ?d) JUndefined
                       (if truthy (field ?d ''json'')
                        then Sent (js_or (JNum 200) (JNum 200)) (JObj ?d)
                        else (case (Inr (JObj ?d) :: err + json) of
                                Inl re \<Rightarrow> NextErr re
                              | Inr page \<Rightarrow> Sent (js_or (JNum 200) (JNum 200)) page))]"
    by blast
  then have 4: "lr_steps (postload_stage ?E ?cb 0 [] ?d)
            = [Called_done None (JObj ?d) JUndefined (Sent (JNum 200) (JObj ?d))]"
    by (simp add: field_def example_data_def js_or_def)
  show ?thesis
    using 1 2 3 4 pc by simp
qed

text \<open>
  C6. A chained datasource whose parent has left nothing in the working data set is to
  be answered with an error that names the datasource and its parent, and the request is
  to be aborted with that error. On a page that requires a datasource the error is
  produced and passed to \<open>done\<close>, and there it is lost: the callback of \<open>process\<close> looks
  at the data before it looks at the error, there is no data, and reading
  \<open>data.hasOwnProperty\<close> throws. The exception is caught by nothing; the error does not
  reach the error chain and no response is sent. The page here requires \<open>makes\<close>, which
  is fetched; \<open>related\<close> is chained to \<open>models\<close>, which is not a datasource of the page.
\<close>

theorem missing_parent_error_is_lost:
  "lr_steps (process (example_env (error_with ''boom'')) [''makes''] (\<lambda>d. Inr d) (JNum 200)
               [(''makes'', example_ds ''makes'' None),
                (''related'', example_ds ''related'' (Some (example_chained_to ''models'')))]
               [] [] example_data)
     = [Fetched ''makes'' None,
        Logged (LogWarn (chained_message ''related'' ''models'')),
        Called_done (Some (error_with (chained_message ''related'' ''models'')))
          JUndefined JUndefined (Throws TypeError)] \<and>
   lr_uncaught (process (example_env (error_with ''boom'')) [''makes''] (\<lambda>d. Inr d) (JNum 200)
               [(''makes'', example_ds ''makes'' None),
                (''related'', example_ds ''related'' (Some (example_chained_to ''models'')))]
               [] [] example_data)
     = Some TypeError"
  by (simp add: pipeline_eval callback_eval dec.simps)

text \<open>
  What holds of the claim. When \<open>data[parent]\<close> is falsy the datasource is answered with
  the error, and the message names both.
\<close>

lemma missing_parent_message:
  assumes "ds_chained ds = Some c"
    and "\<not> truthy_js (data_prop E data (ch_datasource c))"
  shows "start_chained E data ds =
           ([LogWarn (chained_message (ds_name ds) (ch_datasource c))],
            Skipped (error_with (chained_message (ds_name ds) (ch_datasource c))))"
    and "err_message (error_with (chained_message (ds_name ds) (ch_datasource c))) =
           ''Chained datasource '' @ [CHR 0x27] @ ds_name ds @ [CHR 0x27]
             @ '' expected to find data from datasource '' @ [CHR 0x27] @ ch_datasource c
             @ [CHR 0x27] @ ''.''"
  using assms by (simp_all add: start_chained_def error_with_def chained_message_def)

text \<open>On a page without required datasources the same request is aborted with the
  error: it enters the error chain, and the postload events do not run.\<close>

lemma missing_parent_aborts_without_required:
  "lr_steps (process (example_env (error_with ''boom'')) [] (\<lambda>d. Inr d) (JNum 200)
               [(''makes'', example_ds ''makes'' None),
                (''related'', example_ds ''related'' (Some (example_chained_to ''models'')))]
               [] [] example_data)
     = [Fetched ''makes'' None,
        Logged (LogWarn (chained_message ''related'' ''models'')),
        Called_done (Some (error_with (chained_message ''related'' ''models'')))
          JUndefined JUndefined (NextErr (error_with (chained_message ''related'' ''models'')))]"
  by (simp add: pipeline_eval callback_eval dec.simps)

text \<open>
  The test is \<open>!data[parent]\<close>, not \<open>hasOwnProperty\<close>: a parent whose name is found on the
  prototype, or is the name of one of the two helpers of the data object, counts as
  present though no datasource has stored anything under it, and the fetch is started
  with an empty parameter.
\<close>

lemma inherited_parent_is_started:
  "map_of example_data ''toString'' = None \<and>
   start_chained (example_env (error_with ''boom'')) example_data
      (example_ds ''related'' (Some (example_chained_to ''toString'')))
   = ([], Started ((example_ds ''related'' (Some (example_chained_to ''toString'')))
         \<lparr> ds_filter := [(''makeId'', JStr [])] \<rparr>))"
  by (simp add: pipeline_eval dec.simps)

text \<open>
  Three runs that show how \<open>loadData\<close> is put together. When a preload event answers with
  another object that carries the \<open>checkValue\<close>, that object is dropped: the load ends
  with the data object that \<open>loadData\<close> was given.
\<close>

lemma replaced_data_is_dropped:
  "lr_steps (process
      ((example_env (error_with ''boom''))
         \<lparr> modules := (\<lambda>n. Handler (\<lambda>d. Handler_calls d None
                           (JObj [(''checkValue'', JStr ''c0ffee''), (''fresh'', JBool True)]))) \<rparr>)
      [] (\<lambda>d. Inr d) (JNum 200) []
      [\<lparr> ev_page = ''home'', ev_name = ''swap'', ev_eventPath = ''/events'' \<rparr>] [] example_data)
   = [Ran_event ''swap'',
      Called_done None (JObj (set_prop example_data ''checkValue'' (JStr ''c0ffee''))) JUndefined
        (Sent (JNum 200) (JObj (set_prop example_data ''checkValue'' (JStr ''c0ffee''))))]"
  by (simp add: pipeline_eval callback_eval Event_run_def loadEvent_def event_cb_def
        carries_checkValue_def)

text \<open>
  When \<open>done\<close> throws inside the loop of \<open>processChained\<close>, the loop ends: of two chained
  datasources without a parent, on a page that requires a datasource, the second is not
  looked at.
\<close>

lemma throwing_done_ends_the_loop:
  "lr_steps (process (example_env (error_with ''boom'')) [''makes''] (\<lambda>d. Inr d) (JNum 200)
               [(''makes'', example_ds ''makes'' None),
                (''related'', example_ds ''related'' (Some (example_chained_to ''models''))),
                (''similar'', example_ds ''similar'' (Some (example_chained_to ''models'')))]
               [] [] example_data)
     = [Fetched ''makes'' None,
        Logged (LogWarn (chained_message ''related'' ''models'')),
        Called_done (Some (error_with (chained_message ''related'' ''models'')))
          JUndefined JUndefined (Throws TypeError)]"
  by (simp add: pipeline_eval callback_eval dec.simps)

text \<open>
  With postload events, an exception that \<open>done\<close> throws at the end of the load is caught
  by the promise of \<open>loadEventData\<close> and passed to \<open>done\<close> as an error. Here a postload
  event leaves \<open>null\<close> under the required key.
\<close>

lemma final_exception_is_passed_to_done:
  "lr_steps (process
      ((example_env (error_with ''boom''))
         \<lparr> modules := (\<lambda>n. Handler (\<lambda>d. Handler_calls (set_prop d ''reviews'' JNull)
                                              None JUndefined)) \<rparr>)
      [''reviews''] (\<lambda>d. Inr d) (JNum 200) [] []
      [\<lparr> ev_page = ''home'', ev_name = ''wipe'', ev_eventPath = ''/events'' \<rparr>] example_data)
   = [Ran_event ''wipe'',
      Called_done None
        (JObj (set_prop (set_prop example_data ''checkValue'' (JStr ''c0ffee'')) ''reviews'' JNull))
        JUndefined (Throws TypeError),
      Called_done (Some (exn_error TypeError)) JUndefined JUndefined (Throws TypeError)]"
  by (simp add: pipeline_eval callback_eval Event_run_def loadEvent_def event_cb_def
        carries_checkValue_def exn_error_def)

text \<open>
  C10. When loading the event's module throws, or its handler throws, \<open>Event.run\<close> logs
  the exception and calls back with \<open>(null, null)\<close>; the callback of \<open>loadEventData\<close>
  takes that as neither an error nor a result, leaves the data as the handler left it,
  and the remaining events run: the exception is not passed to any continuation.
\<close>

theorem crashing_event_is_swallowed:
  assumes "(loadEvent M ev = Inl x \<and> d = set_prop data ''checkValue'' (JStr (clock i))) \<or>
           (\<exists>h. loadEvent M ev = Inr h \<and>
                 h (set_prop data ''checkValue'' (JStr (clock i))) = Handler_throws d x)"
  shows "Event_run M ev (set_prop data ''checkValue'' (JStr (clock i)))
           = ([LogExn x], d, None, JNull) \<and>
         event_cb (clock i) (ev_name ev) d None JNull = Inr d \<and>
         loadEventData M clock i (ev # evs) data =
           (LogExn x # fst (loadEventData M clock (Suc i) evs d),
            snd (loadEventData M clock (Suc i) evs d))"
proof -
  have r: "Event_run M ev (set_prop data ''checkValue'' (JStr (clock i)))
             = ([LogExn x], d, None, JNull)"
    using assms by (auto simp: Event_run_def)
  have c: "event_cb (clock i) (ev_name ev) d None JNull = Inr d"
    by (simp add: event_cb_def)
  show ?thesis
    using r c by (simp add: split_beta)
qed

theorem crashing_event_is_swallowed_witness:
  "loadEventData
      (\<lambda>n. if n = ''crash'' then Handler (\<lambda>d. Handler_throws d (Thrown ''bang'')) else Missing)
      (\<lambda>i. ''c0ffee'') 0
      [\<lparr> ev_page = ''home'', ev_name = ''crash'', ev_eventPath = ''/events'' \<rparr>] example_data
   = ([LogExn (Thrown ''bang'')],
      Inr (set_prop example_data ''checkValue'' (JStr ''c0ffee'')))"
proof -
  let ?M = "\<lambda>n. if n = ''crash'' then Handler (\<lambda>d. Handler_throws d (Thrown ''bang''))
                 else Missing"
  let ?ev = "\<lparr> ev_page = ''home'', ev_name = ''crash'', ev_eventPath = ''/events'' \<rparr>"
  let ?d = "set_prop example_data ''checkValue'' (JStr ''c0ffee'')"
  have h: "(loadEvent ?M ?ev = Inl (Thrown ''bang'') \<and> ?d = ?d) \<or>
           (\<exists>h. loadEvent ?M ?ev = Inr h \<and> h ?d = Handler_throws ?d (Thrown ''bang''))"
    by (simp add: loadEvent_def)
  show ?thesis
    using crashing_event_is_swallowed
      [of ?M ?ev "Thrown ''bang''" ?d example_data "\<lambda>i. ''c0ffee''" 0 "[]", OF h]
    by simp
qed


section \<open>Claims about the datasource cache\<close>

lemmas cache_eval =
  cachingEnabled_def getOptions_def DatasourceCache_def example_config_def example_cached_def
  example_local_def extend_obj_def field_def js_or_def spec_cachingEnabled_def
  store_enabled_def query_disables_def whitespace_def config_enabled_def merged_options_def
  directory_on_def redis_on_def








text \<open>
  The other way round: with both stores explicitly off in the configuration, a
  datasource whose \<open>caching\<close> block enables the directory is not cached either.
\<close>

lemma caching_config_off_example:
  "fst (cachingEnabled
          (example_config\<lparr> cfg_caching :=
             [(''directory'', JObj [(''enabled'', JBool False), (''path'', JStr ''./cache/web'')]),
              (''redis'', JObj [(''enabled'', JBool False)])] \<rparr>)
          ascii_isBlank (\<lambda>endpoint. [])
          \<lparr> dc_enabled = False,
            dc_cacheOptions =
             [(''directory'', JObj [(''enabled'', JBool False), (''path'', JStr ''./cache/web'')]),
              (''redis'', JObj [(''enabled'', JBool False)])] \<rparr>
          (example_cached (JObj [(''directory'', JObj [(''enabled'', JBool True),
                                                       (''path'', JStr ''./cache/web'')])])))
     = Inr (JBool False)"
  by (simp add: cache_eval)

text \<open>
  What the amended claim leaves out. \<open>getOptions\<close> merges into the options that the cache
  itself holds: the block of one datasource is still there when the next datasource is
  asked about. A datasource without a \<open>caching\<close> block is cached on a cache as its
  constructor has left it, and is not once a datasource that turns the directory off has
  been asked about.
\<close>

lemma caching_block_stays:
  "fst (cachingEnabled example_config ascii_isBlank (\<lambda>endpoint. [])
          \<lparr> dc_enabled = True, dc_cacheOptions = cfg_caching example_config \<rparr>
          (example_cached JUndefined)) = Inr (JBool True) \<and>
   fst (cachingEnabled example_config ascii_isBlank (\<lambda>endpoint. [])
          (snd (cachingEnabled example_config ascii_isBlank (\<lambda>endpoint. [])
                  \<lparr> dc_enabled = True, dc_cacheOptions = cfg_caching example_config \<rparr>
                  (example_cached (JObj [(''directory'', JObj [(''enabled'', JBool False),
                                                               (''path'', JStr ''./cache/web'')])]))))
          (example_cached JUndefined)) = Inr (JBool False)"
  by (simp add: cache_eval)

section \<open>Claims about \<open>processRequest\<close>\<close>

lemmas datasource_eval =
  processRequest_def apply_query_def apply_requestParam_def resolve_page_def
  requestParamsPage_def example_Datasource_def example_platform_def example_store_def
  field_def js_or_def indexOf_def present_def key_of_def read_obj_def write_obj_def alloc_def
  extend_obj_def delete_prop_def

text \<open>
  C1. Request handling is to leave the shared datasource as it is: the pristine filter kept
  by \<open>init\<close> and the filter, page and cache of the shared schema. \<open>processRequest\<close> copies
  \<open>schema.datasource\<close> and then lets \<open>datasourceParams.filter\<close> hold \<open>this.originalFilter\<close>
  itself; the filter of the query string is merged into that object before the copy
  (the \<open>JSON.parse\<close> of the placeholder step) is made. After a request with
  \<open>?filter={"a":1}\<close> the pristine filter is \<open>{a: 1}\<close>, and the next request, which has no
  filter of its own, hands \<open>{a: 1}\<close> to its provider.
\<close>

theorem original_filter_is_mutated:
  "read_obj example_store (originalFilter example_Datasource) = [] \<and>
   (case processRequest example_platform example_Datasource ''cars''
           \<lparr> rq_query = [(''filter'', JStr ''{\"a\":1}'')], rq_params = [],
             rq_headers = JUndefined \<rparr> example_store of
      Inl x \<Rightarrow> False
    | Inr (this, s, call) \<Rightarrow>
        read_obj s (originalFilter this) = [(''a'', JNum 1)] \<and>
        (case processRequest example_platform this ''cars''
                \<lparr> rq_query = [], rq_params = [], rq_headers = JUndefined \<rparr> s of
           Inr (this', s', Called_with_params P) \<Rightarrow> read_obj s' (sd_filter P) = [(''a'', JNum 1)]
         | _ \<Rightarrow> False))"
  by (simp add: datasource_eval)

text \<open>
  The controller's side of the same claim: \<open>processChained\<close> works on shallow copies of
  the datasources and writes the extracted value into \<open>schema.datasource.filter\<close>, which
  the copy shares with the controller's datasource.
\<close>

lemma chained_schema_is_written:
  "map (\<lambda>(k, ds). ds_filter ds)
     (pc_datasources
        (processChained (example_env (error_with ''boom'')) (\<lambda>e d r. Next)
           [(''related'', example_ds ''related'' (Some example_chained))]
           (set_prop example_data ''makes''
              (JObj [(''results'', JArr [JObj [(''id'', JStr ''7'')]])]))))
   = [[(''makeId'', JStr ''7'')]]"
  by (simp add: pipeline_eval dec.simps)

text \<open>
  C8. The page value is to be the \<open>page\<close> of the query string, else the route parameter
  named by the \<open>requestParams\<close> entry for \<open>page\<close>, else the route parameter \<open>page\<close>, else 1.
  The second operand indexes \<open>req.params\<close> with the entry itself and not with its
  \<open>param\<close>: with the entry \<open>{queryParam: 'page', param: 'p'}\<close> and the route parameter
  \<open>p = 3\<close> the page handed to the provider is 1.
\<close>

theorem page_alias_is_not_read:
  "map_option sd_page
     (params_of (processRequest example_platform example_Datasource ''cars''
                   \<lparr> rq_query = [], rq_params = [(''p'', JStr ''3'')], rq_headers = JUndefined \<rparr>
                   example_store))
   = Some (JNum 1)"
  by (simp add: datasource_eval)

text \<open>Whatever the \<open>requestParams\<close> are, the alias does not count: no route parameter is
  called \<open>[object Object]\<close>.\<close>

lemma resolve_page_without_alias:
  "map_of params ''[object Object]'' = None \<Longrightarrow>
   resolve_page rps query params =
     js_or (field query ''page'') (js_or (field params ''page'') (JNum 1))"
  by (simp add: resolve_page_def field_def js_or_def split: option.splits)


end
